theory Spec2Isabelle
  imports Complex_Main "HOL-Library.AList"
begin

section \<open>The style transformer: element trees and \<open>SVGProcessor.applyColorStyling\<close>\<close>

text \<open>
  The markup is parsed by the DOM library into an element tree. An element has a tag name
  (its local name), an ordered list of attributes with distinct names, and its child
  elements in document order. Text nodes are left out: no operation below selects, reads
  or writes one.
\<close>

type_synonym attrs = "(string \<times> string) list"

datatype element = Element (tagName: string) (attributes: attrs) (children: "element list")

text \<open>\<open>getAttribute\<close> returns the value or null (\<open>None\<close>); \<open>setAttribute\<close> replaces the
  value in place or appends a new attribute; \<open>removeAttribute\<close> deletes it.\<close>

definition getAttribute :: "element \<Rightarrow> string \<Rightarrow> string option" where
  "getAttribute e name = map_of (attributes e) name"

fun setAttribute :: "string \<Rightarrow> string \<Rightarrow> element \<Rightarrow> element" where
  "setAttribute name v (Element t a cs) = Element t (AList.update name v a) cs"

fun removeAttribute :: "string \<Rightarrow> element \<Rightarrow> element" where
  "removeAttribute name (Element t a cs) = Element t (AList.delete name a) cs"

text \<open>JavaScript's \<open>!x\<close> on the result of \<open>getAttribute\<close>: null and the empty string are
  falsy.\<close>

fun falsy :: "string option \<Rightarrow> bool" where
  "falsy None = True"
| "falsy (Some s) = (s = [])"

definition SVG_SHAPE_SELECTORS :: "string list" where
  "SVG_SHAPE_SELECTORS =
     [''path'', ''circle'', ''rect'', ''ellipse'', ''line'', ''polyline'', ''polygon'']"

definition DEFAULT_STROKE_WIDTH :: string where
  "DEFAULT_STROKE_WIDTH = ''1.5''"

text \<open>\<open>el.querySelectorAll('*')\<close>: the descendants of \<open>el\<close> in document order. The element
  itself is not among them.\<close>

fun descendants :: "element \<Rightarrow> element list" where
  "descendants (Element t a cs) = concat (map (\<lambda>c. c # descendants c) cs)"

text \<open>\<open>el.querySelectorAll(sel)\<close> for a list of type selectors.\<close>

definition querySelectorAll :: "string list \<Rightarrow> element \<Rightarrow> element list" where
  "querySelectorAll sel el = filter (\<lambda>e. tagName e \<in> set sel) (descendants el)"

text \<open>
  \<open>nodes.forEach(f)\<close> over the static node list of the descendants of \<open>el\<close> whose tag is
  selected by \<open>sel\<close>, for a callback \<open>f\<close> that edits the attributes of the element it is
  given and nothing else: the tree keeps its shape and every selected descendant gets
  its attributes edited once.
\<close>

fun forEach_descendant :: "(string \<Rightarrow> bool) \<Rightarrow> (element \<Rightarrow> element) \<Rightarrow> element \<Rightarrow> element" where
  "forEach_descendant sel f (Element t a cs) =
     Element t a (map (\<lambda>c. let c' = forEach_descendant sel f c
                            in if sel (tagName c') then f c' else c') cs)"

text \<open>The detection of \<open>applyColorStyling\<close>: \<open>querySelectorAll('path')\<close> and \<open>some\<close>.\<close>

definition isOutlineIcon :: "element \<Rightarrow> bool" where
  "isOutlineIcon svgElement =
     list_ex (\<lambda>path. getAttribute path ''stroke'' \<noteq> None
                    \<or> getAttribute path ''fill'' = Some ''none''
                    \<or> falsy (getAttribute path ''fill''))
       (querySelectorAll [''path''] svgElement)"

text \<open>The three callbacks of \<open>applyColorStyling\<close>.\<close>

definition clean_element :: "element \<Rightarrow> element" where
  "clean_element element =
     removeAttribute ''stroke-width'' (removeAttribute ''stroke'' (removeAttribute ''fill'' element))"

definition outline_element :: "string \<Rightarrow> element \<Rightarrow> element" where
  "outline_element color element =
     (let e1 = setAttribute ''stroke'' color element;
          e2 = setAttribute ''fill'' ''none'' e1
      in if falsy (getAttribute e2 ''stroke-width'')
         then setAttribute ''stroke-width'' DEFAULT_STROKE_WIDTH e2 else e2)"

definition solid_element :: "string \<Rightarrow> element \<Rightarrow> element" where
  "solid_element color element = setAttribute ''fill'' color element"

definition applyColorStyling :: "element \<Rightarrow> string \<Rightarrow> element" where
  "applyColorStyling svgElement color =
     (let outline = isOutlineIcon svgElement;
          cleaned = forEach_descendant (\<lambda>t. True) clean_element svgElement;
          isShape = (\<lambda>t. t \<in> set SVG_SHAPE_SELECTORS)
      in if outline
         then forEach_descendant isShape (outline_element color)
                (setAttribute ''stroke-width'' DEFAULT_STROKE_WIDTH
                  (setAttribute ''fill'' ''none''
                    (setAttribute ''stroke'' color cleaned)))
         else forEach_descendant isShape (solid_element color)
                (setAttribute ''fill'' color cleaned))"

text \<open>What the restyling leaves on an element below the root, with tag \<open>t\<close> and
  attributes \<open>a\<close>: the three attributes are removed, and on a shape the outline or the
  solid styling is set. (\<open>applyColorStyling_descendants\<close> below proves it.)\<close>

definition restyled :: "bool \<Rightarrow> string \<Rightarrow> string \<Rightarrow> attrs \<Rightarrow> attrs" where
  "restyled outline color t a =
     (let a0 = AList.delete ''stroke-width'' (AList.delete ''stroke'' (AList.delete ''fill'' a))
      in if t \<in> set SVG_SHAPE_SELECTORS
         then (if outline
               then AList.update ''stroke-width'' DEFAULT_STROKE_WIDTH
                      (AList.update ''fill'' ''none'' (AList.update ''stroke'' color a0))
               else AList.update ''fill'' color a0)
         else a0)"

text \<open>The classification as the specification words it: some descendant shape element of
  any of the seven kinds carries a stroke attribute, or has fill \<open>none\<close>, or has no fill
  attribute at all.\<close>

definition spec_isOutline :: "element \<Rightarrow> bool" where
  "spec_isOutline svgElement =
     list_ex (\<lambda>e. getAttribute e ''stroke'' \<noteq> None
                 \<or> getAttribute e ''fill'' = Some ''none''
                 \<or> getAttribute e ''fill'' = None)
       (querySelectorAll SVG_SHAPE_SELECTORS svgElement)"

text \<open>Sample icons: one shape of a given kind with given attributes under the root.\<close>

definition icon_of :: "attrs \<Rightarrow> string \<Rightarrow> attrs \<Rightarrow> element" where
  "icon_of root_attrs kind shape_attrs =
     Element ''svg'' root_attrs [Element kind shape_attrs []]"

section \<open>The task planner: \<open>SVGConverter.generateTasks\<close>\<close>

text \<open>\<open>s.replace(pat, rep)\<close> with a string pattern: the first occurrence of \<open>pat\<close> in \<open>s\<close>,
  wherever it is, is replaced; a string without the pattern is returned as it is.\<close>

fun replace_first :: "string \<Rightarrow> string \<Rightarrow> string \<Rightarrow> string" where
  "replace_first pat rep [] = (if pat = [] then rep else [])"
| "replace_first pat rep (c # cs) =
     (if take (length pat) (c # cs) = pat then rep @ drop (length pat) (c # cs)
      else c # replace_first pat rep cs)"

definition baseName :: "string \<Rightarrow> string" where
  "baseName iconName = replace_first ''.svg'' '''' iconName"

text \<open>The base name as the specification words it: a trailing \<open>.svg\<close> is stripped if
  present, and the name is returned unchanged otherwise.\<close>

definition spec_basename :: "string \<Rightarrow> string" where
  "spec_basename iconName =
     (if 4 \<le> length iconName \<and> drop (length iconName - 4) iconName = ''.svg''
      then take (length iconName - 4) iconName else iconName)"

datatype task_type = Square | Wide

record sourceConfig =
  source :: string
  suffix :: string

text \<open>The settings object that \<open>run\<close> hands to \<open>generateTasks\<close>. Numbers are taken as
  exact reals; the color is a string or null.\<close>

record task_settings =
  settings_size :: real
  settings_color :: "string option"
  outputDirectory :: string
  wideWidth :: real
  wideHeight :: real
  wideIconSize :: real
  wideSuffix :: string

datatype options =
    SquareOptions real "string option"
  | WideOptions real real real "string option"

record task =
  task_type :: task_type
  task_source :: string
  task_output :: string
  task_iconName :: string
  task_suffix :: string
  task_options :: options

text \<open>
  \<open>Utils.isUrl\<close> (the platform's URL parser accepts the string) and \<open>path.join\<close> belong to
  the platform, not to the repository: they are parameters of the planner.
\<close>

definition fullSource ::
  "(string \<Rightarrow> bool) \<Rightarrow> (string \<Rightarrow> string \<Rightarrow> string) \<Rightarrow> string \<Rightarrow> sourceConfig \<Rightarrow> string" where
  "fullSource isUrl path_join iconName sourceConfig =
     (if isUrl (source sourceConfig) then source sourceConfig @ iconName
      else path_join (source sourceConfig) iconName)"

definition squareTask ::
  "(string \<Rightarrow> bool) \<Rightarrow> (string \<Rightarrow> string \<Rightarrow> string) \<Rightarrow> task_settings \<Rightarrow> string \<Rightarrow>
   sourceConfig \<Rightarrow> task" where
  "squareTask isUrl path_join settings iconName sourceConfig =
     \<lparr> task_type = Square,
       task_source = fullSource isUrl path_join iconName sourceConfig,
       task_output = path_join (outputDirectory settings)
                       (baseName iconName @ suffix sourceConfig @ ''.png''),
       task_iconName = iconName,
       task_suffix = suffix sourceConfig,
       task_options = SquareOptions (settings_size settings) (settings_color settings) \<rparr>"

definition wideTask ::
  "(string \<Rightarrow> bool) \<Rightarrow> (string \<Rightarrow> string \<Rightarrow> string) \<Rightarrow> task_settings \<Rightarrow> string \<Rightarrow>
   sourceConfig \<Rightarrow> task" where
  "wideTask isUrl path_join settings iconName sourceConfig =
     \<lparr> task_type = Wide,
       task_source = fullSource isUrl path_join iconName sourceConfig,
       task_output = path_join (outputDirectory settings)
                       (baseName iconName @ suffix sourceConfig @ wideSuffix settings @ ''.png''),
       task_iconName = iconName,
       task_suffix = suffix sourceConfig,
       task_options = WideOptions (wideWidth settings) (wideHeight settings)
                        (wideIconSize settings) (settings_color settings) \<rparr>"

text \<open>The two nested \<open>for ... of\<close> loops, pushing onto \<open>tasks\<close>.\<close>

fun sources_loop ::
  "(string \<Rightarrow> bool) \<Rightarrow> (string \<Rightarrow> string \<Rightarrow> string) \<Rightarrow> task_settings \<Rightarrow> string \<Rightarrow>
   sourceConfig list \<Rightarrow> task list \<Rightarrow> task list" where
  "sources_loop isUrl path_join settings iconName [] tasks = tasks"
| "sources_loop isUrl path_join settings iconName (sourceConfig # rest) tasks =
     sources_loop isUrl path_join settings iconName rest
       (tasks @ [squareTask isUrl path_join settings iconName sourceConfig,
                 wideTask isUrl path_join settings iconName sourceConfig])"

fun icons_loop ::
  "(string \<Rightarrow> bool) \<Rightarrow> (string \<Rightarrow> string \<Rightarrow> string) \<Rightarrow> task_settings \<Rightarrow> string list \<Rightarrow>
   sourceConfig list \<Rightarrow> task list \<Rightarrow> task list" where
  "icons_loop isUrl path_join settings [] sources tasks = tasks"
| "icons_loop isUrl path_join settings (iconName # rest) sources tasks =
     icons_loop isUrl path_join settings rest sources
       (sources_loop isUrl path_join settings iconName sources tasks)"

definition generateTasks ::
  "(string \<Rightarrow> bool) \<Rightarrow> (string \<Rightarrow> string \<Rightarrow> string) \<Rightarrow> string list \<Rightarrow> sourceConfig list \<Rightarrow>
   task_settings \<Rightarrow> task list" where
  "generateTasks isUrl path_join icons sources settings =
     icons_loop isUrl path_join settings icons sources []"

text \<open>Sample inputs. \<open>sample_isUrl\<close> and \<open>sample_join\<close> are what the URL parser and
  \<open>path.join\<close> (POSIX) answer on the sample sources and file names, which start with
  \<open>https://\<close> when they are URLs and need no normalisation when they are paths.\<close>

definition sample_isUrl :: "string \<Rightarrow> bool" where
  "sample_isUrl s = (take 8 s = ''https://'')"

definition sample_join :: "string \<Rightarrow> string \<Rightarrow> string" where
  "sample_join dir file = dir @ ''/'' @ file"

definition sample_settings :: task_settings where
  "sample_settings =
     \<lparr> settings_size = 80, settings_color = Some ''#075db3'', outputDirectory = ''dist'',
       wideWidth = 320, wideHeight = 180, wideIconSize = 160, wideSuffix = ''_wide'' \<rparr>"

definition sample_sources :: "sourceConfig list" where
  "sample_sources =
     [\<lparr> source = ''https://example.com/icons/outline/'', suffix = ''_outline'' \<rparr>,
      \<lparr> source = ''icons/solid'', suffix = ''_solid'' \<rparr>]"

definition five_icons :: "string list" where
  "five_icons = [''key.svg'', ''user.svg'', ''bug-ant.svg'', ''lock-closed.svg'', ''bell-alert.svg'']"

definition ten_tasks :: "task list" where
  "ten_tasks = generateTasks sample_isUrl sample_join five_icons
                 [\<lparr> source = ''icons/solid'', suffix = ''_solid'' \<rparr>] sample_settings"

section \<open>The scheduler and the statistics: \<open>SVGConverter.run\<close>\<close>

datatype error = TypeError string | Error string

text \<open>What \<open>convertSquare\<close> and \<open>convertWide\<close> return: \<open>{ success: true, output, size }\<close> or
  \<open>{ success: false, error }\<close>.\<close>

record taskResult =
  success :: bool
  result_output :: "string option"
  result_size :: "nat option"
  result_error :: "string option"

text \<open>How the promise of \<open>executeTask(task)\<close> settles.\<close>

datatype settled = fulfilled taskResult | rejected error

text \<open>\<open>this.stats\<close>, without the start time (a clock reading).\<close>

record stats =
  totalTasks :: nat
  successful :: nat
  failed :: nat
  totalSize :: nat

definition new_stats :: stats where
  "new_stats = \<lparr> totalTasks = 0, successful = 0, failed = 0, totalSize = 0 \<rparr>"

text \<open>\<open>result.size || 0\<close>: an absent size counts as 0.\<close>

definition updateStats :: "stats \<Rightarrow> taskResult \<Rightarrow> stats" where
  "updateStats st result =
     (if success result
      then st\<lparr> successful := successful st + 1,
               totalSize := totalSize st + (case result_size result of None \<Rightarrow> 0 | Some n \<Rightarrow> n) \<rparr>
      else st\<lparr> failed := failed st + 1 \<rparr>)"



definition BATCH_SIZE :: nat where
  "BATCH_SIZE = 4"

text \<open>\<open>xs.slice(start, finish)\<close> for \<open>0 \<le> start \<le> finish\<close>; the end is clamped to the
  length.\<close>

definition slice :: "'a list \<Rightarrow> nat \<Rightarrow> nat \<Rightarrow> 'a list" where
  "slice xs start finish = take (finish - start) (drop start xs)"

text \<open>
  What \<open>runParallel\<close> does, in order: \<open>batch.map(task => this.executeTask(task))\<close> starts
  every task of the batch (\<open>Dispatched\<close>), and \<open>await Promise.allSettled(...)\<close> resumes once
  every promise of the batch has settled (\<open>AllSettled\<close>), whatever the order in which they
  settled, with the results in the order of the batch.
\<close>

datatype event = Dispatched task | AllSettled "task list"

definition record_settled :: "settled \<Rightarrow> stats \<Rightarrow> stats" where
  "record_settled result st =
     (case result of
        fulfilled v \<Rightarrow> updateStats st v
      | rejected reason \<Rightarrow> st\<lparr> failed := failed st + 1 \<rparr>)"

function runParallel_loop ::
  "(nat \<Rightarrow> task \<Rightarrow> settled) \<Rightarrow> task list \<Rightarrow> nat \<Rightarrow> stats \<times> event list \<Rightarrow>
   stats \<times> event list" where
  "runParallel_loop executeTask tasks i (st, trace) =
     (if i < length tasks
      then (let batch = slice tasks i (i + BATCH_SIZE);
                numbered = zip [i ..< i + length batch] batch;
                trace1 = trace @ map Dispatched batch;
                results = map (\<lambda>(k, task). executeTask k task) numbered;
                trace2 = trace1 @ [AllSettled batch];
                st' = fold record_settled results st
            in runParallel_loop executeTask tasks (i + BATCH_SIZE) (st', trace2))
      else (st, trace))"
  by pat_completeness auto
termination
  by (relation "measure (\<lambda>(executeTask, tasks, i, s). length tasks - i)")
     (auto simp: BATCH_SIZE_def)

definition runParallel ::
  "(nat \<Rightarrow> task \<Rightarrow> settled) \<Rightarrow> task list \<Rightarrow> stats \<Rightarrow> stats \<times> event list" where
  "runParallel executeTask tasks st = runParallel_loop executeTask tasks 0 (st, [])"

text \<open>The batches of \<open>runParallel\<close>: the slices its loop takes, \<open>i\<close> advancing by
  \<open>BATCH_SIZE\<close>.\<close>

function batches_from :: "task list \<Rightarrow> nat \<Rightarrow> task list list" where
  "batches_from tasks i =
     (if i < length tasks
      then slice tasks i (i + BATCH_SIZE) # batches_from tasks (i + BATCH_SIZE)
      else [])"
  by pat_completeness auto
termination
  by (relation "measure (\<lambda>(tasks, i). length tasks - i)") (auto simp: BATCH_SIZE_def)

definition batches :: "task list \<Rightarrow> task list list" where
  "batches tasks = batches_from tasks 0"


text \<open>A settled promise counts as a failure when it was rejected or fulfilled with
  \<open>success: false\<close>. \<open>outcomes\<close> lists how the planned tasks settle, in planned order.\<close>

definition is_failure :: "settled \<Rightarrow> bool" where
  "is_failure result = (case result of fulfilled v \<Rightarrow> \<not> success v | rejected reason \<Rightarrow> True)"

definition outcomes :: "(nat \<Rightarrow> task \<Rightarrow> settled) \<Rightarrow> task list \<Rightarrow> settled list" where
  "outcomes executeTask tasks = map (\<lambda>k. executeTask k (tasks ! k)) [0 ..< length tasks]"

text \<open>A sample run: the first task raises an unexpected fault, the second reports a
  failure, every other task succeeds with 1024 bytes.\<close>

definition sample_executeTask :: "nat \<Rightarrow> task \<Rightarrow> settled" where
  "sample_executeTask k task =
     (if k = 0 then rejected (Error ''unexpected fault'')
      else if k = 1
      then fulfilled \<lparr> success = False, result_output = None, result_size = None,
                       result_error = Some ''Failed to fetch SVG'' \<rparr>
      else fulfilled \<lparr> success = True, result_output = Some (task_output task),
                       result_size = Some 1024, result_error = None \<rparr>)"


section \<open>The content fetcher: \<open>SVGProcessor.fetchContent\<close>\<close>

text \<open>A natural number as a template literal renders it: in decimal, most significant
  digit first.\<close>

definition digit :: "nat \<Rightarrow> char" where
  "digit d = ''0123456789'' ! d"

fun decimal :: "nat \<Rightarrow> string" where
  "decimal n = (if 10 \<le> n then decimal (n div 10) @ [digit (n mod 10)] else [digit n])"

text \<open>
  The network and the file system at the time of a call: what \<open>fetch\<close> answers (a thrown
  message or a response, whose body may fail to be read), whether \<open>fs.access\<close> succeeds,
  and what \<open>fs.readFile\<close> gives. Each retrieval is logged as the input and output it
  performs.
\<close>

datatype io_event = NetworkFetch string | FileAccess string | FileRead string

record response =
  ok :: bool
  status :: nat
  statusText :: string
  response_text :: "string + string"

record world =
  net_fetch :: "string \<Rightarrow> string + response"
  file_exists :: "string \<Rightarrow> bool"
  read_file :: "string \<Rightarrow> string + string"

type_synonym cache = "string \<rightharpoonup> string"

text \<open>The body of the \<open>try\<close> block up to the caching: the retrieved content or the message
  of the error thrown, with the input and output performed.\<close>

definition retrieve ::
  "(string \<Rightarrow> bool) \<Rightarrow> world \<Rightarrow> string \<Rightarrow> (string + string) \<times> io_event list" where
  "retrieve isUrl w src =
     (if isUrl src
      then (case net_fetch w src of
              Inl message \<Rightarrow> (Inl message, [NetworkFetch src])
            | Inr resp \<Rightarrow>
                if \<not> ok resp
                then (Inl (''HTTP '' @ decimal (status resp) @ '': '' @ statusText resp),
                      [NetworkFetch src])
                else (response_text resp, [NetworkFetch src]))
      else if \<not> file_exists w src
           then (Inl (''File not found: '' @ src), [FileAccess src])
           else (read_file w src, [FileAccess src, FileRead src]))"

text \<open>
  \<open>fetchContent\<close> is an asynchronous function. When it is called, its body runs to the
  first \<open>await\<close>: the cache is checked, and on a hit the cached text is returned at once.
  On a miss the call is in flight until the awaited input and output have completed;
  then the rest of the body runs: the content is stored in the cache and returned, or
  the error is thrown. Between the call and its completion other calls may start and
  complete.
\<close>

definition cache_check :: "cache \<Rightarrow> string \<Rightarrow> bool \<Rightarrow> string option" where
  "cache_check cache src useCache = (if useCache \<and> cache src \<noteq> None then cache src else None)"

text \<open>The completion of a call that missed: the result, the cache after it, and the input
  and output performed.\<close>

definition fetch_complete ::
  "(string \<Rightarrow> bool) \<Rightarrow> world \<Rightarrow> cache \<Rightarrow> string \<Rightarrow> bool \<Rightarrow>
   (error + string) \<times> cache \<times> io_event list" where
  "fetch_complete isUrl w cache src useCache =
     (case retrieve isUrl w src of
        (Inl message, evs) \<Rightarrow>
          (Inl (Error (''Failed to fetch SVG from '' @ src @ '': '' @ message)), cache, evs)
      | (Inr content, evs) \<Rightarrow>
          (Inr content, if useCache then cache(src \<mapsto> content) else cache, evs))"

text \<open>A call of \<open>fetchContent\<close> with nothing else running between its start and its
  completion.\<close>

definition fetchContent ::
  "(string \<Rightarrow> bool) \<Rightarrow> world \<Rightarrow> cache \<Rightarrow> string \<Rightarrow> bool \<Rightarrow>
   (error + string) \<times> cache \<times> io_event list" where
  "fetchContent isUrl w cache src useCache =
     (case cache_check cache src useCache of
        Some content \<Rightarrow> (Inr content, cache, [])
      | None \<Rightarrow> fetch_complete isUrl w cache src useCache)"

text \<open>
  An \<open>SVGProcessor\<close> during a run: its cache, the calls in flight (source and \<open>useCache\<close>),
  what the calls so far have returned or thrown, in the order in which they did, and the
  input and output performed so far. A run is a sequence of actions: a call of
  \<open>fetchContent\<close>, or the completion of the call at some position among those in flight,
  in the world as it is then.
\<close>

record processor =
  proc_cache :: cache
  in_flight :: "(string \<times> bool) list"
  returned :: "(string \<times> (error + string)) list"
  performed :: "io_event list"

definition new_processor :: processor where
  "new_processor = \<lparr> proc_cache = Map.empty, in_flight = [], returned = [], performed = [] \<rparr>"

datatype action = Call string bool | Complete nat world

fun step :: "(string \<Rightarrow> bool) \<Rightarrow> processor \<Rightarrow> action \<Rightarrow> processor" where
  "step isUrl p (Call src useCache) =
     (case cache_check (proc_cache p) src useCache of
        Some content \<Rightarrow> p\<lparr> returned := returned p @ [(src, Inr content)] \<rparr>
      | None \<Rightarrow> p\<lparr> in_flight := in_flight p @ [(src, useCache)] \<rparr>)"
| "step isUrl p (Complete n w) =
     (if n < length (in_flight p)
      then (case in_flight p ! n of
              (src, useCache) \<Rightarrow>
                (case fetch_complete isUrl w (proc_cache p) src useCache of
                   (r, cache', evs) \<Rightarrow>
                     p\<lparr> proc_cache := cache',
                        in_flight := take n (in_flight p) @ drop (Suc n) (in_flight p),
                        returned := returned p @ [(src, r)],
                        performed := performed p @ evs \<rparr>))
      else p)"

definition run_actions :: "(string \<Rightarrow> bool) \<Rightarrow> processor \<Rightarrow> action list \<Rightarrow> processor" where
  "run_actions isUrl p acts = foldl (step isUrl) p acts"

text \<open>Sample worlds: one where every request is answered 404 and no file exists, one
  where every request is answered with an icon, and one where it is answered with
  another icon.\<close>

definition world_404 :: world where
  "world_404 =
     \<lparr> net_fetch = (\<lambda>url. Inr \<lparr> ok = False, status = 404, statusText = ''Not Found'',
                                response_text = Inr '''' \<rparr>),
       file_exists = (\<lambda>p. False),
       read_file = (\<lambda>p. Inl ''ENOENT'') \<rparr>"

definition world_ok :: world where
  "world_ok =
     \<lparr> net_fetch = (\<lambda>url. Inr \<lparr> ok = True, status = 200, statusText = ''OK'',
                                response_text = Inr ''<svg/>'' \<rparr>),
       file_exists = (\<lambda>p. True),
       read_file = (\<lambda>p. Inr ''<svg/>'') \<rparr>"

definition world_changed :: world where
  "world_changed =
     \<lparr> net_fetch = (\<lambda>url. Inr \<lparr> ok = True, status = 200, statusText = ''OK'',
                                response_text = Inr ''<svg><g/></svg>'' \<rparr>),
       file_exists = (\<lambda>p. True),
       read_file = (\<lambda>p. Inr ''<svg><g/></svg>'') \<rparr>"

definition sample_url :: string where
  "sample_url = ''https://example.com/icons/outline/key.svg''"

section \<open>Configuration validation: \<open>ConfigManager\<close>\<close>

text \<open>
  The configuration is what the YAML loader returns: a JavaScript value. Numbers are
  NaN, the two infinities, or a finite number taken as an exact real; the comparisons
  and \<open>Math.min\<close> are those of the language on such numbers (any comparison with NaN is
  false, \<open>Math.min\<close> of NaN is NaN).
\<close>

datatype jsnum = NaN | NegInf | Fin real | PosInf

fun js_lt :: "jsnum \<Rightarrow> jsnum \<Rightarrow> bool" where
  "js_lt NaN y = False"
| "js_lt x NaN = False"
| "js_lt PosInf y = False"
| "js_lt x NegInf = False"
| "js_lt NegInf y = True"
| "js_lt x PosInf = True"
| "js_lt (Fin a) (Fin b) = (a < b)"

definition Math_min :: "jsnum \<Rightarrow> jsnum \<Rightarrow> jsnum" where
  "Math_min x y = (if x = NaN \<or> y = NaN then NaN else if js_lt y x then y else x)"

datatype jsval =
    Undefined
  | Null
  | Boolean bool
  | Number jsnum
  | Str string
  | Array "jsval list"
  | Object "(string \<times> jsval) list"

fun truthy :: "jsval \<Rightarrow> bool" where
  "truthy Undefined = False"
| "truthy Null = False"
| "truthy (Boolean b) = b"
| "truthy (Number n) = (n \<noteq> NaN \<and> n \<noteq> Fin 0)"
| "truthy (Str s) = (s \<noteq> [])"
| "truthy (Array xs) = True"
| "truthy (Object kvs) = True"

datatype jstype = T_undefined | T_object | T_boolean | T_number | T_string

fun typeof :: "jsval \<Rightarrow> jstype" where
  "typeof Undefined = T_undefined"
| "typeof Null = T_object"
| "typeof (Boolean b) = T_boolean"
| "typeof (Number n) = T_number"
| "typeof (Str s) = T_string"
| "typeof (Array xs) = T_object"
| "typeof (Object kvs) = T_object"

fun isArray :: "jsval \<Rightarrow> bool" where
  "isArray (Array xs) = True"
| "isArray v = False"

fun elements :: "jsval \<Rightarrow> jsval list" where
  "elements (Array xs) = xs"
| "elements v = []"

text \<open>
  Reading a property \<open>v.k\<close>, for the keys the validator reads (none of them is a property
  that arrays, strings, numbers or booleans have): on null and undefined it throws a
  TypeError, on an object it gives the value under the key or undefined, on anything
  else undefined. \<open>property\<close> is the read where the value is known to be neither null
  nor undefined.
\<close>

fun property :: "jsval \<Rightarrow> string \<Rightarrow> jsval" where
  "property (Object kvs) k = (case map_of kvs k of None \<Rightarrow> Undefined | Some v \<Rightarrow> v)"
| "property v k = Undefined"

definition get_prop :: "jsval \<Rightarrow> string \<Rightarrow> error + jsval" where
  "get_prop v k =
     (if v = Undefined \<or> v = Null
      then Inl (TypeError (''Cannot read properties of ''
                 @ (if v = Null then ''null'' else ''undefined'')
                 @ '' (reading '' @ [CHR 0x27] @ k @ [CHR 0x27] @ '')''))
      else Inr (property v k))"

text \<open>
  The conversion of a value to a number by \<open><\<close>, \<open>>\<close> and \<open>Math.min\<close>: undefined gives NaN,
  null gives 0, true gives 1 and false 0. What a string, an array or an object converts
  to is decided by the language's parsing of numeric strings, the parameter \<open>coerce\<close>.
\<close>

fun ToNumber :: "(jsval \<Rightarrow> jsnum) \<Rightarrow> jsval \<Rightarrow> jsnum" where
  "ToNumber coerce Undefined = NaN"
| "ToNumber coerce Null = Fin 0"
| "ToNumber coerce (Boolean b) = Fin (if b then 1 else 0)"
| "ToNumber coerce (Number n) = n"
| "ToNumber coerce v = coerce v"

definition validateIcons :: "jsval \<Rightarrow> string list" where
  "validateIcons icons =
     (if \<not> truthy icons \<or> \<not> isArray icons \<or> length (elements icons) = 0
      then [''icons: must be a non-empty array''] else [])"

definition validateSingleSource :: "jsval \<Rightarrow> nat \<Rightarrow> error + string list" where
  "validateSingleSource src index =
     (case get_prop src ''source'' of
        Inl e \<Rightarrow> Inl e
      | Inr v1 \<Rightarrow>
          (case get_prop src ''suffix'' of
             Inl e \<Rightarrow> Inl e
           | Inr v2 \<Rightarrow>
               Inr ((if \<not> truthy v1 \<or> typeof v1 \<noteq> T_string
                     then [''sources['' @ decimal index
                             @ ''].source: must be a non-empty string'']
                     else [])
                  @ (if \<not> truthy v2 \<or> typeof v2 \<noteq> T_string
                     then [''sources['' @ decimal index
                             @ ''].suffix: must be a non-empty string'']
                     else []))))"

fun sources_forEach :: "jsval list \<Rightarrow> nat \<Rightarrow> string list \<Rightarrow> error + string list" where
  "sources_forEach [] index errors = Inr errors"
| "sources_forEach (src # rest) index errors =
     (case validateSingleSource src index of
        Inl e \<Rightarrow> Inl e
      | Inr es \<Rightarrow> sources_forEach rest (index + 1) (errors @ es))"

definition validateSources :: "jsval \<Rightarrow> error + string list" where
  "validateSources sources =
     (if \<not> truthy sources \<or> \<not> isArray sources \<or> length (elements sources) = 0
      then Inr [''sources: must be a non-empty array'']
      else sources_forEach (elements sources) 0 [])"

definition validateBasicSettings :: "(jsval \<Rightarrow> jsnum) \<Rightarrow> jsval \<Rightarrow> error + string list" where
  "validateBasicSettings coerce settings =
     (case get_prop settings ''size'' of
        Inl e \<Rightarrow> Inl e
      | Inr sz \<Rightarrow>
          (case get_prop settings ''outputDirectory'' of
             Inl e \<Rightarrow> Inl e
           | Inr dir \<Rightarrow>
               Inr ((if typeof sz \<noteq> T_number \<or> js_lt (ToNumber coerce sz) (Fin 1)
                        \<or> js_lt (Fin 2048) (ToNumber coerce sz)
                     then [''settings.size: must be a number between 1 and 2048''] else [])
                  @ (if \<not> truthy dir \<or> typeof dir \<noteq> T_string
                     then [''settings.outputDirectory: must be a non-empty string'']
                     else []))))"

text \<open>In \<open>validateWideSettings\<close> the properties are read after \<open>!wide\<close> has returned, so
  from a value that is neither null nor undefined.\<close>

definition validateWideSettings :: "(jsval \<Rightarrow> jsnum) \<Rightarrow> jsval \<Rightarrow> string list" where
  "validateWideSettings coerce wide =
     (if \<not> truthy wide then []
      else (let width = property wide ''width'';
                height = property wide ''height'';
                iconSize = property wide ''iconSize''
            in (if typeof width \<noteq> T_number \<or> js_lt (ToNumber coerce width) (Fin 1)
                then [''settings.wide.width: must be a positive number''] else [])
             @ (if typeof height \<noteq> T_number \<or> js_lt (ToNumber coerce height) (Fin 1)
                then [''settings.wide.height: must be a positive number''] else [])
             @ (if typeof iconSize \<noteq> T_number \<or> js_lt (ToNumber coerce iconSize) (Fin 1)
                then [''settings.wide.iconSize: must be a positive number''] else [])
             @ (if js_lt (Math_min (ToNumber coerce width) (ToNumber coerce height))
                     (ToNumber coerce iconSize)
                then [''settings.wide.iconSize: must be <= min(width, height)''] else [])))"

definition validateSettings :: "(jsval \<Rightarrow> jsnum) \<Rightarrow> jsval \<Rightarrow> error + string list" where
  "validateSettings coerce settings =
     (if \<not> truthy settings \<or> typeof settings \<noteq> T_object
      then Inr [''settings: must be an object'']
      else (case validateBasicSettings coerce settings of
              Inl e \<Rightarrow> Inl e
            | Inr es \<Rightarrow> Inr (es @ validateWideSettings coerce (property settings ''wide''))))"

definition validateConfig :: "(jsval \<Rightarrow> jsnum) \<Rightarrow> jsval \<Rightarrow> error + string list" where
  "validateConfig coerce config =
     (case get_prop config ''icons'' of
        Inl e \<Rightarrow> Inl e
      | Inr icons \<Rightarrow>
          (case get_prop config ''sources'' of
             Inl e \<Rightarrow> Inl e
           | Inr sources \<Rightarrow>
               (case validateSources sources of
                  Inl e \<Rightarrow> Inl e
                | Inr es2 \<Rightarrow>
                    (case get_prop config ''settings'' of
                       Inl e \<Rightarrow> Inl e
                     | Inr settings \<Rightarrow>
                         (case validateSettings coerce settings of
                            Inl e \<Rightarrow> Inl e
                          | Inr es3 \<Rightarrow> Inr (validateIcons icons @ es2 @ es3))))))"

text \<open>\<open>xs.join(sep)\<close> on strings.\<close>

fun join :: "string \<Rightarrow> string list \<Rightarrow> string" where
  "join sep [] = []"
| "join sep [x] = x"
| "join sep (x # y # ys) = x @ sep @ join sep (y # ys)"

text \<open>\<open>loadConfig\<close>, from the value the YAML loader returned: it throws the validator's
  own error, or one error listing every validation message, or returns the
  configuration.\<close>

definition loadConfig :: "(jsval \<Rightarrow> jsnum) \<Rightarrow> jsval \<Rightarrow> error + jsval" where
  "loadConfig coerce config =
     (case validateConfig coerce config of
        Inl e \<Rightarrow> Inl e
      | Inr validationErrors \<Rightarrow>
          if length validationErrors > 0
          then Inl (Error (''Configuration validation failed:'' @ [CHR 0x0A]
                             @ join [CHR 0x0A] validationErrors))
          else Inr config)"

text \<open>\<open>main\<close>: the converter is built and run on the configuration that \<open>loadConfig\<close>
  returned; \<open>convert\<close> stands for planning and executing the tasks.\<close>

definition main :: "(jsval \<Rightarrow> jsnum) \<Rightarrow> (jsval \<Rightarrow> 'r) \<Rightarrow> jsval \<Rightarrow> error + 'r" where
  "main coerce convert config =
     (case loadConfig coerce config of
        Inl e \<Rightarrow> Inl e
      | Inr c \<Rightarrow> Inr (convert c))"

text \<open>Sample configurations. \<open>NaN_coercion\<close> converts every string, array and object to
  NaN, as the language does for every string that is not a numeric literal and for
  every plain object; no sample below holds a value that would be converted by it.\<close>

definition NaN_coercion :: "jsval \<Rightarrow> jsnum" where
  "NaN_coercion v = NaN"

definition wide_200_in_180 :: jsval where
  "wide_200_in_180 =
     Object [(''width'', Number (Fin 180)), (''height'', Number (Fin 320)),
             (''iconSize'', Number (Fin 200)), (''wideSuffix'', Str ''_wide'')]"

definition bad_config :: jsval where
  "bad_config =
     Object [(''icons'', Array [Str ''key.svg'']),
             (''sources'', Array [Object [(''source'', Str ''icons/solid''),
                                          (''suffix'', Str ''_solid'')]]),
             (''settings'', Object [(''size'', Number (Fin 4096)),
                                    (''color'', Str ''#075db3''),
                                    (''outputDirectory'', Str ''dist''),
                                    (''wide'', wide_200_in_180)])]"

text \<open>The same configuration with an empty entry in \<open>sources\<close>, which the YAML loader
  returns as null; and a configuration whose only fault is a size that is NaN (\<open>.nan\<close>
  in YAML).\<close>

definition null_source_config :: jsval where
  "null_source_config =
     Object [(''icons'', Array [Str ''key.svg'']),
             (''sources'', Array [Null]),
             (''settings'', Object [(''size'', Number (Fin 4096)),
                                    (''color'', Str ''#075db3''),
                                    (''outputDirectory'', Str ''dist''),
                                    (''wide'', wide_200_in_180)])]"

definition nan_size_config :: jsval where
  "nan_size_config =
     Object [(''icons'', Array [Str ''key.svg'']),
             (''sources'', Array [Object [(''source'', Str ''icons/solid''),
                                          (''suffix'', Str ''_solid'')]]),
             (''settings'', Object [(''size'', Number NaN),
                                    (''outputDirectory'', Str ''dist'')])]"

definition wide_null_width :: jsval where
  "wide_null_width =
     Object [(''width'', Null), (''height'', Number (Fin 180)), (''iconSize'', Number (Fin 200))]"

definition wide_no_width :: jsval where
  "wide_no_width =
     Object [(''height'', Number (Fin 180)), (''iconSize'', Number (Fin 200))]"

section \<open>The rasterizer: the centering of \<open>PNGConverter.convertWide\<close>\<close>

text \<open>\<open>Math.round\<close>: the nearest integer, a tie going up. Numbers are taken as exact
  reals.\<close>

definition Math_round :: "real \<Rightarrow> int" where
  "Math_round x = \<lfloor>x + 1 / 2\<rfloor>"

definition center_position :: "real \<Rightarrow> real \<Rightarrow> real \<Rightarrow> int \<times> int" where
  "center_position width height iconSize =
     (Math_round ((width - iconSize) / 2), Math_round ((height - iconSize) / 2))"

section \<open>Theorems about the style transformer\<close>

declare decimal.simps [simp del]
declare runParallel_loop.simps [simp del]
declare batches_from.simps [simp del]

lemma falsy_iff: "falsy x \<longleftrightarrow> x = None \<or> x = Some []"
  by (cases x) auto

text \<open>
  Claim C1, as the code has it. The detection reads \<open>path\<close> elements only, and treats an
  empty fill value like an absent one. So: on an icon all of whose shape elements are
  \<open>path\<close> elements, the icon is classified as outline if and only if some shape element
  carries a stroke attribute, or has fill \<open>none\<close>, or has no fill attribute, or has an
  empty one; otherwise it is solid. An icon whose only shape is a path with
  \<open>fill="none" stroke="#000"\<close> is outline, and one whose only shape is a path with
  \<open>fill="#000"\<close> and no stroke is solid, whatever the root carries. The color plays no part
  in the classification.
\<close>

theorem outline_classification_paths:
  "((\<forall>e \<in> set (querySelectorAll SVG_SHAPE_SELECTORS svgElement). tagName e = ''path'') \<longrightarrow>
     (isOutlineIcon svgElement \<longleftrightarrow>
        list_ex (\<lambda>e. getAttribute e ''stroke'' \<noteq> None
                    \<or> getAttribute e ''fill'' = Some ''none''
                    \<or> getAttribute e ''fill'' = None
                    \<or> getAttribute e ''fill'' = Some '''')
          (querySelectorAll SVG_SHAPE_SELECTORS svgElement)))
   \<and> isOutlineIcon (icon_of r ''path'' [(''fill'', ''none''), (''stroke'', ''#000'')])
   \<and> \<not> isOutlineIcon (icon_of r ''path'' [(''fill'', ''#000'')])"
proof (intro conjI impI)
  assume h: "\<forall>e \<in> set (querySelectorAll SVG_SHAPE_SELECTORS svgElement). tagName e = ''path''"
  have "querySelectorAll SVG_SHAPE_SELECTORS svgElement = querySelectorAll [''path''] svgElement"
    using h unfolding querySelectorAll_def SVG_SHAPE_SELECTORS_def
    by (intro filter_cong) auto
  then show "isOutlineIcon svgElement \<longleftrightarrow>
        list_ex (\<lambda>e. getAttribute e ''stroke'' \<noteq> None
                    \<or> getAttribute e ''fill'' = Some ''none''
                    \<or> getAttribute e ''fill'' = None
                    \<or> getAttribute e ''fill'' = Some '''')
          (querySelectorAll SVG_SHAPE_SELECTORS svgElement)"
    by (simp add: isOutlineIcon_def falsy_iff)
next
  show "isOutlineIcon (icon_of r ''path'' [(''fill'', ''none''), (''stroke'', ''#000'')])"
    by (simp add: isOutlineIcon_def icon_of_def querySelectorAll_def getAttribute_def)
next
  show "\<not> isOutlineIcon (icon_of r ''path'' [(''fill'', ''#000'')])"
    by (simp add: isOutlineIcon_def icon_of_def querySelectorAll_def getAttribute_def)
qed

text \<open>The theorem at an icon whose only shape is a stroked path without fill.\<close>

theorem outline_classification_paths_witness:
  "querySelectorAll SVG_SHAPE_SELECTORS (icon_of [] ''path'' [(''stroke'', ''#000'')])
       = [Element ''path'' [(''stroke'', ''#000'')] []]
   \<and> tagName (Element ''path'' [(''stroke'', ''#000'')] []) = ''path''
   \<and> isOutlineIcon (icon_of [] ''path'' [(''stroke'', ''#000'')])"
  using outline_classification_paths [of "icon_of [] ''path'' [(''stroke'', ''#000'')]" "[]"]
  by (simp add: icon_of_def querySelectorAll_def SVG_SHAPE_SELECTORS_def getAttribute_def)

text \<open>
  The classification as the specification words it fails on two icons: a single circle
  with \<open>fill="none" stroke="#000"\<close> is classified as solid (no \<open>path\<close> element is there to be
  examined), and a single path with an empty fill value and no stroke is classified as
  outline.
\<close>

theorem outline_classification_counterexample:
  "isOutlineIcon (icon_of [] ''circle'' [(''fill'', ''none''), (''stroke'', ''#000'')])
     \<noteq> spec_isOutline (icon_of [] ''circle'' [(''fill'', ''none''), (''stroke'', ''#000'')])
   \<and> isOutlineIcon (icon_of [] ''path'' [(''fill'', '''')])
     \<noteq> spec_isOutline (icon_of [] ''path'' [(''fill'', '''')])"
  by (simp add: isOutlineIcon_def spec_isOutline_def icon_of_def querySelectorAll_def
      SVG_SHAPE_SELECTORS_def getAttribute_def)

text \<open>
  Claim C2 at a solid icon whose root carries a stroke: the cleaning pass visits the
  descendants of the root, not the root, and the solid branch sets only the root's fill.
  The root's \<open>stroke="red"\<close> and \<open>stroke-width="3"\<close> are still there after restyling.
\<close>

theorem solid_root_keeps_stroke:
  "applyColorStyling
     (icon_of [(''stroke'', ''red''), (''stroke-width'', ''3'')] ''path'' [(''fill'', ''#000'')])
     ''#075db3''
   = icon_of [(''stroke'', ''red''), (''stroke-width'', ''3''), (''fill'', ''#075db3'')]
       ''path'' [(''fill'', ''#075db3'')]"
  by (simp add: applyColorStyling_def isOutlineIcon_def icon_of_def querySelectorAll_def
      SVG_SHAPE_SELECTORS_def getAttribute_def clean_element_def solid_element_def)

text \<open>
  Below the root the restyling is uniform: every element keeps its tag and its other
  attributes, loses its own \<open>fill\<close>, \<open>stroke\<close> and \<open>stroke-width\<close>, and, when it is a shape,
  gets \<open>stroke = color\<close>, \<open>fill = none\<close> and \<open>stroke-width = 1.5\<close> on an outline icon and
  \<open>fill = color\<close> alone on a solid one. The root gets the same three attributes on an
  outline icon, and \<open>fill = color\<close> on a solid one; nothing is removed from it.
\<close>

lemma forEach_descendant_own:
  "tagName (forEach_descendant sel f e) = tagName e"
  "attributes (forEach_descendant sel f e) = attributes e"
  by (cases e; simp)+

lemma descendants_children: "descendants e = concat (map (\<lambda>c. c # descendants c) (children e))"
  by (cases e) simp

lemma descendants_forEach:
  assumes f: "\<And>t a cs. f (Element t a cs) = Element t (g a) cs"
  shows "map (\<lambda>d. (tagName d, attributes d)) (descendants (forEach_descendant sel f e))
       = map (\<lambda>d. (tagName d, if sel (tagName d) then g (attributes d) else attributes d))
           (descendants e)"
proof (induction e)
  case (Element t a cs)
  have ftag: "tagName (f x) = tagName x" for x by (cases x) (simp add: f)
  have fattr: "attributes (f x) = g (attributes x)" for x by (cases x) (simp add: f)
  have fdesc: "descendants (f x) = descendants x" for x by (cases x) (simp add: f)
  let ?h = "\<lambda>c. let c' = forEach_descendant sel f c in if sel (tagName c') then f c' else c'"
  let ?p = "\<lambda>d. (tagName d, attributes d)"
  let ?q = "\<lambda>d. (tagName d, if sel (tagName d) then g (attributes d) else attributes d)"
  have one: "map ?p (?h c # descendants (?h c)) = map ?q (c # descendants c)"
    if "c \<in> set cs" for c
    using Element.IH [OF that]
    by (simp add: Let_def ftag fattr fdesc forEach_descendant_own)
  have "map ?p (descendants (forEach_descendant sel f (Element t a cs)))
      = concat (map (\<lambda>c. map ?p (?h c # descendants (?h c))) cs)"
    by (simp add: map_concat comp_def Let_def)
  also have "\<dots> = concat (map (\<lambda>c. map ?q (c # descendants c)) cs)"
    using one by (metis (no_types, lifting) map_eq_conv)
  also have "\<dots> = map ?q (descendants (Element t a cs))"
    by (simp add: map_concat comp_def)
  finally show ?case .
qed

lemma clean_element_eq:
  "clean_element (Element t a cs)
     = Element t (AList.delete ''stroke-width'' (AList.delete ''stroke'' (AList.delete ''fill'' a))) cs"
  by (simp add: clean_element_def)

lemma solid_element_eq:
  "solid_element color (Element t a cs) = Element t (AList.update ''fill'' color a) cs"
  by (simp add: solid_element_def)

lemma outline_element_eq:
  "outline_element color (Element t a cs)
     = Element t (let a2 = AList.update ''fill'' ''none'' (AList.update ''stroke'' color a)
                  in if falsy (map_of a2 ''stroke-width'')
                     then AList.update ''stroke-width'' DEFAULT_STROKE_WIDTH a2 else a2) cs"
  by (simp add: outline_element_def Let_def getAttribute_def)

lemma descendants_setAttribute: "descendants (setAttribute name v e) = descendants e"
  by (cases e) simp

lemma forEach_setAttribute:
  "forEach_descendant sel f (setAttribute name v e) = setAttribute name v (forEach_descendant sel f e)"
  by (cases e) simp

lemma outline_after_clean:
  "map_of a ''stroke-width'' = None \<Longrightarrow>
   (let a2 = AList.update ''fill'' ''none'' (AList.update ''stroke'' color a)
    in if falsy (map_of a2 ''stroke-width'')
       then AList.update ''stroke-width'' DEFAULT_STROKE_WIDTH a2 else a2)
   = AList.update ''stroke-width'' DEFAULT_STROKE_WIDTH
       (AList.update ''fill'' ''none'' (AList.update ''stroke'' color a))"
  by (simp add: Let_def update_conv')

lemma applyColorStyling_descendants:
  "map (\<lambda>d. (tagName d, attributes d)) (descendants (applyColorStyling svgElement color))
     = map (\<lambda>d. (tagName d, restyled (isOutlineIcon svgElement) color (tagName d) (attributes d)))
         (descendants svgElement)"
proof -
  let ?p = "\<lambda>d. (tagName d, attributes d)"
  let ?clean = "\<lambda>a. AList.delete ''stroke-width'' (AList.delete ''stroke'' (AList.delete ''fill'' a))"
  let ?cleaned = "forEach_descendant (\<lambda>t. True) clean_element svgElement"
  let ?isShape = "\<lambda>t. t \<in> set SVG_SHAPE_SELECTORS"
  have c: "map ?p (descendants ?cleaned) = map (\<lambda>d. (tagName d, ?clean (attributes d))) (descendants svgElement)"
    using descendants_forEach [of clean_element ?clean "\<lambda>t. True" svgElement]
    by (simp add: clean_element_eq)
  have nosw: "map_of (?clean a) ''stroke-width'' = None" for a :: attrs
    by (simp add: delete_conv')
  show ?thesis
  proof (cases "isOutlineIcon svgElement")
    case True
    let ?g = "\<lambda>a. let a2 = AList.update ''fill'' ''none'' (AList.update ''stroke'' color a)
                  in if falsy (map_of a2 ''stroke-width'')
                     then AList.update ''stroke-width'' DEFAULT_STROKE_WIDTH a2 else a2"
    have "map ?p (descendants (applyColorStyling svgElement color))
        = map ?p (descendants (forEach_descendant ?isShape (outline_element color) ?cleaned))"
      using True by (simp add: applyColorStyling_def Let_def forEach_setAttribute descendants_setAttribute)
    also have "\<dots> = map (\<lambda>d. (tagName d, if ?isShape (tagName d) then ?g (attributes d) else attributes d))
                      (descendants ?cleaned)"
      by (rule descendants_forEach) (rule outline_element_eq)
    also have "\<dots> = map ((\<lambda>(t, a). (t, if ?isShape t then ?g a else a)) \<circ> ?p) (descendants ?cleaned)"
      by (simp add: comp_def)
    also have "\<dots> = map (\<lambda>(t, a). (t, if ?isShape t then ?g a else a))
                      (map (\<lambda>d. (tagName d, ?clean (attributes d))) (descendants svgElement))"
      unfolding c [symmetric] by simp
    also have "\<dots> = map (\<lambda>d. (tagName d, restyled True color (tagName d) (attributes d)))
                      (descendants svgElement)"
      using outline_after_clean [OF nosw] by (simp add: restyled_def Let_def)
    finally show ?thesis using True by simp
  next
    case False
    let ?g = "AList.update ''fill'' color"
    have "map ?p (descendants (applyColorStyling svgElement color))
        = map ?p (descendants (forEach_descendant ?isShape (solid_element color) ?cleaned))"
      using False by (simp add: applyColorStyling_def Let_def forEach_setAttribute descendants_setAttribute)
    also have "\<dots> = map (\<lambda>d. (tagName d, if ?isShape (tagName d) then ?g (attributes d) else attributes d))
                      (descendants ?cleaned)"
      by (rule descendants_forEach) (rule solid_element_eq)
    also have "\<dots> = map ((\<lambda>(t, a). (t, if ?isShape t then ?g a else a)) \<circ> ?p) (descendants ?cleaned)"
      by (simp add: comp_def)
    also have "\<dots> = map (\<lambda>(t, a). (t, if ?isShape t then ?g a else a))
                      (map (\<lambda>d. (tagName d, ?clean (attributes d))) (descendants svgElement))"
      unfolding c [symmetric] by simp
    also have "\<dots> = map (\<lambda>d. (tagName d, restyled False color (tagName d) (attributes d)))
                      (descendants svgElement)"
      by (simp add: restyled_def Let_def)
    finally show ?thesis using False by simp
  qed
qed

lemma restyled_values:
  "t \<in> set SVG_SHAPE_SELECTORS \<Longrightarrow>
     map_of (restyled True color t a) ''stroke'' = Some color
     \<and> map_of (restyled True color t a) ''fill'' = Some ''none''
     \<and> map_of (restyled True color t a) ''stroke-width'' = Some DEFAULT_STROKE_WIDTH
     \<and> map_of (restyled False color t a) ''fill'' = Some color
     \<and> map_of (restyled False color t a) ''stroke'' = None
     \<and> map_of (restyled False color t a) ''stroke-width'' = None"
  "t \<notin> set SVG_SHAPE_SELECTORS \<Longrightarrow>
     map_of (restyled outline color t a) ''stroke'' = None
     \<and> map_of (restyled outline color t a) ''fill'' = None
     \<and> map_of (restyled outline color t a) ''stroke-width'' = None"
  "name \<noteq> ''stroke'' \<Longrightarrow> name \<noteq> ''fill'' \<Longrightarrow> name \<noteq> ''stroke-width'' \<Longrightarrow>
     map_of (restyled outline color t a) name = map_of a name"
  by (simp_all add: restyled_def Let_def update_conv' delete_conv')

lemma applyColorStyling_root:
  "tagName (applyColorStyling svgElement color) = tagName svgElement"
  "attributes (applyColorStyling svgElement color)
     = (if isOutlineIcon svgElement
        then AList.update ''stroke-width'' DEFAULT_STROKE_WIDTH
               (AList.update ''fill'' ''none'' (AList.update ''stroke'' color (attributes svgElement)))
        else AList.update ''fill'' color (attributes svgElement))"
  by (cases svgElement; simp add: applyColorStyling_def Let_def)+


section \<open>Theorems about the task planner\<close>

lemma sources_loop_eq:
  "sources_loop u j s i srcs acc =
     acc @ concat (map (\<lambda>sc. [squareTask u j s i sc, wideTask u j s i sc]) srcs)"
  by (induction srcs arbitrary: acc) simp_all

lemma icons_loop_eq:
  "icons_loop u j s icons srcs acc =
     acc @ concat (map (\<lambda>i. concat (map (\<lambda>sc. [squareTask u j s i sc, wideTask u j s i sc]) srcs))
                    icons)"
  by (induction icons arbitrary: acc) (simp_all add: sources_loop_eq)

lemma length_pairs: "length (concat (map (\<lambda>sc. [f sc, g sc]) srcs)) = 2 * length srcs"
  by (induction srcs) simp_all

lemma length_nested:
  "length (concat (map (\<lambda>i. concat (map (\<lambda>sc. [f i sc, g i sc]) srcs)) icons))
     = 2 * length icons * length srcs"
  by (induction icons) (simp_all add: length_pairs algebra_simps)

lemma nth_pairs:
  "j < length srcs \<Longrightarrow>
   concat (map (\<lambda>sc. [f sc, g sc]) srcs) ! (2 * j) = f (srcs ! j) \<and>
   concat (map (\<lambda>sc. [f sc, g sc]) srcs) ! (2 * j + 1) = g (srcs ! j)"
proof (induction srcs arbitrary: j)
  case Nil
  then show ?case by simp
next
  case (Cons a srcs)
  show ?case
  proof (cases j)
    case 0
    then show ?thesis by simp
  next
    case (Suc k)
    with Cons.prems have "k < length srcs" by simp
    from Cons.IH [OF this] show ?thesis using Suc by simp
  qed
qed

lemma nth_nested:
  "i < length icons \<Longrightarrow> j < length srcs \<Longrightarrow>
   concat (map (\<lambda>ic. concat (map (\<lambda>sc. [f ic sc, g ic sc]) srcs)) icons)
     ! (2 * (i * length srcs + j)) = f (icons ! i) (srcs ! j) \<and>
   concat (map (\<lambda>ic. concat (map (\<lambda>sc. [f ic sc, g ic sc]) srcs)) icons)
     ! (2 * (i * length srcs + j) + 1) = g (icons ! i) (srcs ! j)"
proof (induction icons arbitrary: i)
  case Nil
  then show ?case by simp
next
  case (Cons a icons)
  let ?row = "\<lambda>ic. concat (map (\<lambda>sc. [f ic sc, g ic sc]) srcs)"
  have len: "length (?row a) = 2 * length srcs" by (rule length_pairs)
  show ?case
  proof (cases i)
    case 0
    have "2 * j < length (?row a)" "2 * j + 1 < length (?row a)"
      using Cons.prems(2) len by simp_all
    then show ?thesis
      using 0 nth_pairs [OF Cons.prems(2), of "f a" "g a"]
      by (simp add: nth_append)
  next
    case (Suc k)
    with Cons.prems have k: "k < length icons" by simp
    have e1: "2 * (i * length srcs + j) = length (?row a) + 2 * (k * length srcs + j)"
      using Suc len by (simp add: algebra_simps)
    show ?thesis
      using Cons.IH [OF k Cons.prems(2)] Suc
      unfolding e1 by (simp add: nth_append len)
  qed
qed

lemma generateTasks_concat:
  "generateTasks isUrl path_join icons sources settings =
     concat (map (\<lambda>iconName. concat (map (\<lambda>sourceConfig.
         [squareTask isUrl path_join settings iconName sourceConfig,
          wideTask isUrl path_join settings iconName sourceConfig]) sources)) icons)"
  by (simp add: generateTasks_def icons_loop_eq)

lemma generateTasks_nth:
  assumes "i < length icons" "j < length sources"
  shows "generateTasks isUrl path_join icons sources settings ! (2 * (i * length sources + j))
           = squareTask isUrl path_join settings (icons ! i) (sources ! j)"
    and "generateTasks isUrl path_join icons sources settings ! (2 * (i * length sources + j) + 1)
           = wideTask isUrl path_join settings (icons ! i) (sources ! j)"
  unfolding generateTasks_concat
  using nth_nested [OF assms, of "squareTask isUrl path_join settings"
      "wideTask isUrl path_join settings"]
  by simp_all

lemma map_pairs:
  "map h (concat (map (\<lambda>sc. [f sc, g sc]) srcs)) = concat (map (\<lambda>sc. [h (f sc), h (g sc)]) srcs)"
  by (induction srcs) simp_all

lemma map_nested:
  "map h (concat (map (\<lambda>ic. concat (map (\<lambda>sc. [f ic sc, g ic sc]) srcs)) icons))
     = concat (map (\<lambda>ic. concat (map (\<lambda>sc. [h (f ic sc), h (g ic sc)]) srcs)) icons)"
  by (induction icons) (simp_all add: map_pairs)

text \<open>
  Claim C3. Whatever the icons and the sources are, \<open>generateTasks\<close> returns
  \<open>2 \<times> |icons| \<times> |sources|\<close> tasks. Read by icon name, suffix and kind, the task list is:
  for each icon in configured order, for each source in configured order, the square
  task and then the wide task of that icon and that source. The task at position
  \<open>2 (i |sources| + j)\<close> is the square task of the icon at position \<open>i\<close> and the source at
  position \<open>j\<close>, with the fields the planner gives it, and the task after it is their wide
  task. The task list is a function of the icons, the sources, the settings and the two
  pure platform functions, and of nothing else: planning reads no file and no network.
\<close>

theorem generateTasks_order:
  "length (generateTasks isUrl path_join icons sources settings)
     = 2 * length icons * length sources
   \<and> map (\<lambda>t. (task_iconName t, task_suffix t, task_type t))
         (generateTasks isUrl path_join icons sources settings)
       = concat (map (\<lambda>iconName. concat (map (\<lambda>sourceConfig.
           [(iconName, suffix sourceConfig, Square),
            (iconName, suffix sourceConfig, Wide)]) sources)) icons)
   \<and> (\<forall>i < length icons. \<forall>j < length sources.
        generateTasks isUrl path_join icons sources settings ! (2 * (i * length sources + j))
          = \<lparr> task_type = Square,
              task_source = (if isUrl (source (sources ! j))
                             then source (sources ! j) @ icons ! i
                             else path_join (source (sources ! j)) (icons ! i)),
              task_output = path_join (outputDirectory settings)
                              (baseName (icons ! i) @ suffix (sources ! j) @ ''.png''),
              task_iconName = icons ! i,
              task_suffix = suffix (sources ! j),
              task_options = SquareOptions (settings_size settings) (settings_color settings) \<rparr>
        \<and> generateTasks isUrl path_join icons sources settings
            ! (2 * (i * length sources + j) + 1)
          = \<lparr> task_type = Wide,
              task_source = (if isUrl (source (sources ! j))
                             then source (sources ! j) @ icons ! i
                             else path_join (source (sources ! j)) (icons ! i)),
              task_output = path_join (outputDirectory settings)
                              (baseName (icons ! i) @ suffix (sources ! j)
                                 @ wideSuffix settings @ ''.png''),
              task_iconName = icons ! i,
              task_suffix = suffix (sources ! j),
              task_options = WideOptions (wideWidth settings) (wideHeight settings)
                               (wideIconSize settings) (settings_color settings) \<rparr>)"
proof (intro conjI allI impI)
  show "length (generateTasks isUrl path_join icons sources settings)
     = 2 * length icons * length sources"
    by (simp add: generateTasks_concat length_nested)
  show "map (\<lambda>t. (task_iconName t, task_suffix t, task_type t))
         (generateTasks isUrl path_join icons sources settings)
       = concat (map (\<lambda>iconName. concat (map (\<lambda>sourceConfig.
           [(iconName, suffix sourceConfig, Square),
            (iconName, suffix sourceConfig, Wide)]) sources)) icons)"
    by (simp add: generateTasks_concat map_nested squareTask_def wideTask_def)
next
  fix i j
  assume ij: "i < length icons" "j < length sources"
  show "generateTasks isUrl path_join icons sources settings ! (2 * (i * length sources + j))
          = \<lparr> task_type = Square,
              task_source = (if isUrl (source (sources ! j))
                             then source (sources ! j) @ icons ! i
                             else path_join (source (sources ! j)) (icons ! i)),
              task_output = path_join (outputDirectory settings)
                              (baseName (icons ! i) @ suffix (sources ! j) @ ''.png''),
              task_iconName = icons ! i,
              task_suffix = suffix (sources ! j),
              task_options = SquareOptions (settings_size settings) (settings_color settings) \<rparr>"
    unfolding generateTasks_nth(1) [OF ij]
    by (simp add: squareTask_def fullSource_def)
  show "generateTasks isUrl path_join icons sources settings
            ! (2 * (i * length sources + j) + 1)
          = \<lparr> task_type = Wide,
              task_source = (if isUrl (source (sources ! j))
                             then source (sources ! j) @ icons ! i
                             else path_join (source (sources ! j)) (icons ! i)),
              task_output = path_join (outputDirectory settings)
                              (baseName (icons ! i) @ suffix (sources ! j)
                                 @ wideSuffix settings @ ''.png''),
              task_iconName = icons ! i,
              task_suffix = suffix (sources ! j),
              task_options = WideOptions (wideWidth settings) (wideHeight settings)
                               (wideIconSize settings) (settings_color settings) \<rparr>"
    unfolding generateTasks_nth(2) [OF ij]
    by (simp add: wideTask_def fullSource_def)
qed

text \<open>The theorem at two icons and two sources: eight tasks, and the tasks of the second
  icon and the first source at positions 4 (square) and 5 (wide).\<close>

theorem generateTasks_order_witness:
  "(1::nat) < length [''key.svg'', ''user.svg''] \<and> (0::nat) < length sample_sources
   \<and> length (generateTasks sample_isUrl sample_join [''key.svg'', ''user.svg'']
               sample_sources sample_settings) = 8
   \<and> map (\<lambda>t. (task_iconName t, task_suffix t, task_type t))
         (generateTasks sample_isUrl sample_join [''key.svg'', ''user.svg'']
            sample_sources sample_settings)
       = [(''key.svg'', ''_outline'', Square), (''key.svg'', ''_outline'', Wide),
          (''key.svg'', ''_solid'', Square), (''key.svg'', ''_solid'', Wide),
          (''user.svg'', ''_outline'', Square), (''user.svg'', ''_outline'', Wide),
          (''user.svg'', ''_solid'', Square), (''user.svg'', ''_solid'', Wide)]
   \<and> generateTasks sample_isUrl sample_join [''key.svg'', ''user.svg'']
        sample_sources sample_settings ! 4
      = \<lparr> task_type = Square,
          task_source = ''https://example.com/icons/outline/user.svg'',
          task_output = ''dist/user_outline.png'',
          task_iconName = ''user.svg'',
          task_suffix = ''_outline'',
          task_options = SquareOptions 80 (Some ''#075db3'') \<rparr>
   \<and> generateTasks sample_isUrl sample_join [''key.svg'', ''user.svg'']
        sample_sources sample_settings ! 5
      = \<lparr> task_type = Wide,
          task_source = ''https://example.com/icons/outline/user.svg'',
          task_output = ''dist/user_outline_wide.png'',
          task_iconName = ''user.svg'',
          task_suffix = ''_outline'',
          task_options = WideOptions 320 180 160 (Some ''#075db3'') \<rparr>"
proof -
  note t = generateTasks_order [of sample_isUrl sample_join "[''key.svg'', ''user.svg'']"
      sample_sources sample_settings]
  have p: "(1::nat) < length [''key.svg'', ''user.svg'']" by simp
  have q: "(0::nat) < length sample_sources" by (simp add: sample_sources_def)
  note pos = t [THEN conjunct2, THEN conjunct2, rule_format, OF p q]
  note count = t [THEN conjunct1]
  note keys = t [THEN conjunct2, THEN conjunct1]
  show ?thesis
    using count keys pos
    by (simp add: sample_sources_def sample_settings_def sample_join_def sample_isUrl_def
        baseName_def)
qed

lemma replace_first_absent:
  "\<forall>i < length s. take (length pat) (drop i s) \<noteq> pat \<Longrightarrow> pat \<noteq> [] \<Longrightarrow>
   replace_first pat rep s = s"
proof (induction s)
  case Nil
  then show ?case by simp
next
  case (Cons c cs)
  from Cons.prems(1) have here: "take (length pat) (c # cs) \<noteq> pat" by force
  have "\<forall>i < length cs. take (length pat) (drop i cs) \<noteq> pat"
  proof (intro allI impI)
    fix i assume "i < length cs"
    then have "Suc i < length (c # cs)" by simp
    with Cons.prems(1) have "take (length pat) (drop (Suc i) (c # cs)) \<noteq> pat" by blast
    then show "take (length pat) (drop i cs) \<noteq> pat" by simp
  qed
  with Cons.IH Cons.prems(2) have "replace_first pat rep cs = cs" by blast
  with here show ?case by simp
qed

lemma replace_first_at_end:
  "\<forall>i < length stem. take (length pat) (drop i (stem @ pat)) \<noteq> pat \<Longrightarrow>
   replace_first pat rep (stem @ pat) = stem @ rep"
proof (induction stem)
  case Nil
  then show ?case by (cases pat) simp_all
next
  case (Cons c cs)
  from Cons.prems have here: "take (length pat) ((c # cs) @ pat) \<noteq> pat" by force
  have "\<forall>i < length cs. take (length pat) (drop i (cs @ pat)) \<noteq> pat"
  proof (intro allI impI)
    fix i assume "i < length cs"
    then have "Suc i < length (c # cs)" by simp
    with Cons.prems have "take (length pat) (drop (Suc i) ((c # cs) @ pat)) \<noteq> pat" by blast
    then show "take (length pat) (drop i (cs @ pat)) \<noteq> pat" by simp
  qed
  with Cons.IH have "replace_first pat rep (cs @ pat) = cs @ rep" by blast
  with here show ?case by simp
qed

text \<open>Where \<open>.svg\<close> occurs in a name only as its trailing extension, or not at all, the
  base name is the one the specification describes.\<close>

lemma baseName_trailing_only:
  assumes "\<forall>i < length stem. take 4 (drop i (stem @ ''.svg'')) \<noteq> ''.svg''"
  shows "baseName (stem @ ''.svg'') = stem \<and> spec_basename (stem @ ''.svg'') = stem"
proof
  have len: "length ''.svg'' = 4" by simp
  have "replace_first ''.svg'' [] (stem @ ''.svg'') = stem @ []"
    by (rule replace_first_at_end) (use assms in \<open>simp only: len\<close>)
  then show "baseName (stem @ ''.svg'') = stem" by (simp add: baseName_def)
  show "spec_basename (stem @ ''.svg'') = stem" by (simp add: spec_basename_def)
qed

lemma baseName_without_extension:
  assumes "\<forall>i < length name. take 4 (drop i name) \<noteq> ''.svg''"
  shows "baseName name = name"
proof -
  have len: "length ''.svg'' = 4" by simp
  have "replace_first ''.svg'' [] name = name"
    by (rule replace_first_absent) (use assms in \<open>simp_all only: len\<close>, simp)
  then show ?thesis by (simp add: baseName_def)
qed

text \<open>
  Claim C4 at the file name \<open>my.svgicon.svg\<close>: \<open>replace\<close> removes the first \<open>.svg\<close>, not the
  trailing one, so the planned outputs are named after \<open>myicon.svg\<close>, where stripping the
  trailing extension gives \<open>my.svgicon\<close>. The output paths are otherwise built as
  claimed: the output directory joined with base name, suffix (and wide suffix) and
  \<open>.png\<close>.
\<close>

theorem baseName_first_occurrence:
  "baseName ''my.svgicon.svg'' = ''myicon.svg''
   \<and> spec_basename ''my.svgicon.svg'' = ''my.svgicon''
   \<and> task_output (squareTask isUrl path_join settings ''my.svgicon.svg'' sourceConfig)
       = path_join (outputDirectory settings) (''myicon.svg'' @ suffix sourceConfig @ ''.png'')
   \<and> task_output (wideTask isUrl path_join settings ''my.svgicon.svg'' sourceConfig)
       = path_join (outputDirectory settings)
           (''myicon.svg'' @ suffix sourceConfig @ wideSuffix settings @ ''.png'')"
  by (simp add: baseName_def spec_basename_def squareTask_def wideTask_def)

section \<open>Theorems about the scheduler and the statistics\<close>

lemma slice_length: "length (slice xs i (i + n)) = min n (length xs - i)"
  by (simp add: slice_def)

lemma batches_from_concat: "concat (batches_from tasks i) = drop i tasks"
proof (induction tasks i rule: batches_from.induct)
  case (1 tasks i)
  show ?case
  proof (cases "i < length tasks")
    case True
    have "slice tasks i (i + BATCH_SIZE) @ drop (i + BATCH_SIZE) tasks = drop i tasks"
      by (simp add: slice_def add.commute [of i] flip: drop_drop)
    with 1 True show ?thesis
      by (subst batches_from.simps) simp
  next
    case False
    then show ?thesis by (subst batches_from.simps) simp
  qed
qed

lemma batches_from_sizes:
  "b \<in> set (batches_from tasks i) \<Longrightarrow> 0 < length b \<and> length b \<le> BATCH_SIZE"
proof (induction tasks i rule: batches_from.induct)
  case (1 tasks i)
  show ?case
  proof (cases "i < length tasks")
    case True
    from "1.prems" have "b = slice tasks i (i + BATCH_SIZE) \<or> b \<in> set (batches_from tasks (i + BATCH_SIZE))"
      by (subst (asm) batches_from.simps) (simp add: True)
    then show ?thesis
    proof
      assume "b = slice tasks i (i + BATCH_SIZE)"
      then show ?thesis using True by (simp add: slice_length BATCH_SIZE_def)
    next
      assume "b \<in> set (batches_from tasks (i + BATCH_SIZE))"
      then show ?thesis using "1.IH" True by simp
    qed
  next
    case False
    with "1.prems" show ?thesis by (subst (asm) batches_from.simps) simp
  qed
qed

lemma batches_from_full:
  "b \<in> set (butlast (batches_from tasks i)) \<Longrightarrow> length b = BATCH_SIZE"
proof (induction tasks i rule: batches_from.induct)
  case (1 tasks i)
  show ?case
  proof (cases "i < length tasks")
    case True
    note step = batches_from.simps [of tasks i]
    show ?thesis
    proof (cases "i + BATCH_SIZE < length tasks")
      case more: True
      then have ne: "batches_from tasks (i + BATCH_SIZE) \<noteq> []"
        by (subst batches_from.simps) simp
      from "1.prems" have "b = slice tasks i (i + BATCH_SIZE)
          \<or> b \<in> set (butlast (batches_from tasks (i + BATCH_SIZE)))"
        using True ne by (simp add: step)
      then show ?thesis
      proof
        assume "b = slice tasks i (i + BATCH_SIZE)"
        then show ?thesis using more by (simp add: slice_length)
      next
        assume "b \<in> set (butlast (batches_from tasks (i + BATCH_SIZE)))"
        then show ?thesis using "1.IH" True by simp
      qed
    next
      case False
      then have "batches_from tasks (i + BATCH_SIZE) = []"
        by (subst batches_from.simps) simp
      with "1.prems" True show ?thesis by (simp add: step)
    qed
  next
    case False
    with "1.prems" show ?thesis by (subst (asm) batches_from.simps) simp
  qed
qed

lemma ceil_step:
  fixes n i :: nat
  assumes "i < n"
  shows "(n - i + 3) div 4 = Suc ((n - (i + 4) + 3) div 4)"
proof (cases "i + 4 \<le> n")
  case True
  then obtain d where d: "n = i + 4 + d" using le_Suc_ex by blast
  have "(d + 4 + 3) div 4 = Suc ((d + 3) div 4)"
    by (metis add.commute add.left_commute div_add_self1 zero_neq_numeral Suc_eq_plus1)
  then show ?thesis unfolding d by (simp add: add.commute add.left_commute)
next
  case False
  with assms have z: "n - (i + 4) = 0" and "4 \<le> n - i + 3" and "n - i + 3 < 8" by simp_all
  then have "(n - i + 3) div 4 = 1" by (simp add: div_nat_eqI)
  then show ?thesis by (simp only: z)
qed

lemma batches_from_length:
  "length (batches_from tasks i) = (length tasks - i + 3) div 4"
proof (induction tasks i rule: batches_from.induct)
  case (1 tasks i)
  show ?case
  proof (cases "i < length tasks")
    case True
    have "length (batches_from tasks i) = Suc (length (batches_from tasks (i + BATCH_SIZE)))"
      by (subst batches_from.simps) (simp add: True)
    also have "\<dots> = Suc ((length tasks - (i + 4) + 3) div 4)"
      using "1.IH" [OF True] by (simp add: BATCH_SIZE_def)
    also have "\<dots> = (length tasks - i + 3) div 4"
      using ceil_step [OF True] by simp
    finally show ?thesis .
  next
    case False
    then show ?thesis by (subst batches_from.simps) simp
  qed
qed

lemma map_numbered:
  "map (\<lambda>(k, t). f k t) (zip [i ..< i + length (slice tasks i (i + n))] (slice tasks i (i + n)))
     = map (\<lambda>k. f k (tasks ! k)) [i ..< min (i + n) (length tasks)]"
proof (rule nth_equalityI)
  show "length (map (\<lambda>(k, t). f k t) (zip [i ..< i + length (slice tasks i (i + n))] (slice tasks i (i + n))))
      = length (map (\<lambda>k. f k (tasks ! k)) [i ..< min (i + n) (length tasks)])"
    by (auto simp: slice_def min_def)
next
  fix j
  assume "j < length (map (\<lambda>(k, t). f k t) (zip [i ..< i + length (slice tasks i (i + n))] (slice tasks i (i + n))))"
  then have j: "j < n" "j < length tasks - i"
    by (simp_all add: slice_def)
  then have "i + j < min (i + n) (length tasks)" by simp
  then have r: "[i ..< min (i + n) (length tasks)] ! j = i + j"
    by (metis add.commute less_diff_conv nth_upt)
  have l: "slice tasks i (i + n) ! j = tasks ! (i + j)"
    using j by (simp add: slice_def)
  have len: "length (slice tasks i (i + n)) = min n (length tasks - i)"
    by (simp add: slice_def)
  show "map (\<lambda>(k, t). f k t) (zip [i ..< i + length (slice tasks i (i + n))] (slice tasks i (i + n))) ! j
      = map (\<lambda>k. f k (tasks ! k)) [i ..< min (i + n) (length tasks)] ! j"
    using j r l by (simp add: len)
qed

lemma updateStats_counts:
  "successful (updateStats st r) = successful st + (if success r then 1 else 0)"
  "failed (updateStats st r) = failed st + (if success r then 0 else 1)"
  "totalSize (updateStats st r) = totalSize st
      + (if success r then (case result_size r of None \<Rightarrow> 0 | Some n \<Rightarrow> n) else 0)"
  "totalTasks (updateStats st r) = totalTasks st"
  by (simp_all add: updateStats_def)

lemma record_settled_counts:
  "failed (record_settled x st) = failed st + (if is_failure x then 1 else 0)"
  "successful (record_settled x st) = successful st + (if is_failure x then 0 else 1)"
  "totalTasks (record_settled x st) = totalTasks st"
  by (cases x; simp add: record_settled_def is_failure_def updateStats_counts)+

lemma fold_record_settled:
  "failed (fold record_settled xs st) = failed st + length (filter is_failure xs)"
  "successful (fold record_settled xs st) = successful st + length (filter (\<lambda>x. \<not> is_failure x) xs)"
  "totalTasks (fold record_settled xs st) = totalTasks st"
  by (induction xs arbitrary: st; simp add: record_settled_counts)+

lemma upt_split: "i \<le> m \<Longrightarrow> m \<le> n \<Longrightarrow> [i ..< n] = [i ..< m] @ [m ..< n]"
  by (metis le_Suc_ex upt_add_eq_append)

lemma runParallel_loop_trace:
  "snd (runParallel_loop ex tasks i (st, trace))
     = trace @ concat (map (\<lambda>b. map Dispatched b @ [AllSettled b]) (batches_from tasks i))"
proof (induction ex tasks i "(st, trace)" arbitrary: st trace rule: runParallel_loop.induct)
  case (1 ex tasks i st trace)
  show ?case
  proof (cases "i < length tasks")
    case True
    show ?thesis
      apply (subst runParallel_loop.simps)
      apply (subst batches_from.simps)
      using True 1 by (simp add: Let_def)
  next
    case False
    then show ?thesis
      by (subst runParallel_loop.simps, subst batches_from.simps) simp
  qed
qed

lemma runParallel_loop_step:
  "i < length tasks \<Longrightarrow>
   runParallel_loop ex tasks i (st, trace) =
     runParallel_loop ex tasks (i + BATCH_SIZE)
       (fold record_settled (map (\<lambda>k. ex k (tasks ! k)) [i ..< min (i + BATCH_SIZE) (length tasks)]) st,
        trace @ map Dispatched (slice tasks i (i + BATCH_SIZE)) @ [AllSettled (slice tasks i (i + BATCH_SIZE))])"
  by (subst runParallel_loop.simps) (simp add: Let_def map_numbered del: upt.simps)

lemma runParallel_loop_stop:
  "\<not> i < length tasks \<Longrightarrow> runParallel_loop ex tasks i (st, trace) = (st, trace)"
  by (subst runParallel_loop.simps) simp

lemma runParallel_loop_stats:
  "failed (fst (runParallel_loop ex tasks i (st, trace)))
     = failed st + length (filter is_failure (map (\<lambda>k. ex k (tasks ! k)) [i ..< length tasks]))
   \<and> successful (fst (runParallel_loop ex tasks i (st, trace)))
     = successful st + length (filter (\<lambda>x. \<not> is_failure x) (map (\<lambda>k. ex k (tasks ! k)) [i ..< length tasks]))
   \<and> totalTasks (fst (runParallel_loop ex tasks i (st, trace))) = totalTasks st"
proof (induction "length tasks - i" arbitrary: i st trace rule: less_induct)
  case less
  show ?case
  proof (cases "i < length tasks")
    case True
    let ?m = "min (i + BATCH_SIZE) (length tasks)"
    let ?st = "fold record_settled (map (\<lambda>k. ex k (tasks ! k)) [i ..< ?m]) st"
    let ?tr = "trace @ map Dispatched (slice tasks i (i + BATCH_SIZE)) @ [AllSettled (slice tasks i (i + BATCH_SIZE))]"
    have split: "[i ..< length tasks] = [i ..< ?m] @ [?m ..< length tasks]"
      using True by (intro upt_split) auto
    have rest: "[?m ..< length tasks] = [i + BATCH_SIZE ..< length tasks]"
      by (auto simp: min_def)
    have dec: "length tasks - (i + BATCH_SIZE) < length tasks - i"
      using True by (simp add: BATCH_SIZE_def)
    note ih = less [OF dec, of ?st ?tr]
    show ?thesis
      unfolding runParallel_loop_step [OF True]
      using ih by (simp add: fold_record_settled split rest del: upt.simps)
  next
    case False
    then show ?thesis
      by (simp add: runParallel_loop_stop)
  qed
qed



lemma batches_ten: "length tasks = 10 \<Longrightarrow> map length (batches tasks) = [4, 4, 2]"
proof -
  assume n: "length tasks = 10"
  have s0: "batches_from tasks 0 = slice tasks 0 (0 + BATCH_SIZE) # batches_from tasks 4"
    by (subst batches_from.simps) (simp add: n BATCH_SIZE_def)
  have s4: "batches_from tasks 4 = slice tasks 4 (4 + BATCH_SIZE) # batches_from tasks 8"
    by (subst batches_from.simps) (simp add: n BATCH_SIZE_def)
  have s8: "batches_from tasks 8 = slice tasks 8 (8 + BATCH_SIZE) # batches_from tasks 12"
    by (subst batches_from.simps) (simp add: n BATCH_SIZE_def)
  have s12: "batches_from tasks 12 = []"
    by (subst batches_from.simps) (simp add: n)
  show ?thesis
    unfolding batches_def s0 s4 s8 s12
    by (simp add: slice_def n BATCH_SIZE_def)
qed

text \<open>
  Claim C5. The batches of \<open>runParallel\<close> are contiguous slices of the task list in
  planned order: put one after the other they are the task list, each holds between 1
  and 4 tasks, each but the last holds 4, and there are \<open>\<lceil>n / 4\<rceil>\<close> of them; 10 tasks
  give batches of 4, 4 and 2. However the tasks settle, what \<open>runParallel\<close> does is, batch
  after batch: dispatch every task of the batch, then resume once all of the batch have
  settled. So every task of a batch is dispatched after the point where every task of the
  batch before it has settled, and every batch is run, whatever failed before it. A task
  that is rejected or reports a failure adds one to \<open>failed\<close>, and nothing else is done
  about it.
\<close>

theorem runParallel_batches:
  "concat (batches tasks) = tasks
   \<and> (\<forall>b \<in> set (batches tasks). 0 < length b \<and> length b \<le> 4)
   \<and> (\<forall>b \<in> set (butlast (batches tasks)). length b = 4)
   \<and> length (batches tasks) = (length tasks + 3) div 4
   \<and> snd (runParallel executeTask tasks st)
       = concat (map (\<lambda>b. map Dispatched b @ [AllSettled b]) (batches tasks))
   \<and> failed (fst (runParallel executeTask tasks st))
       = failed st + length (filter is_failure (outcomes executeTask tasks))
   \<and> (length tasks = 10 \<longrightarrow> map length (batches tasks) = [4, 4, 2])"
proof (intro conjI)
  show "concat (batches tasks) = tasks"
    by (simp add: batches_def batches_from_concat)
  show "\<forall>b \<in> set (batches tasks). 0 < length b \<and> length b \<le> 4"
    using batches_from_sizes [of _ tasks 0] by (simp add: batches_def BATCH_SIZE_def)
  show "\<forall>b \<in> set (butlast (batches tasks)). length b = 4"
    using batches_from_full [of _ tasks 0] by (simp add: batches_def BATCH_SIZE_def)
  show "length (batches tasks) = (length tasks + 3) div 4"
    by (simp add: batches_def batches_from_length)
  show "snd (runParallel executeTask tasks st)
       = concat (map (\<lambda>b. map Dispatched b @ [AllSettled b]) (batches tasks))"
    by (simp add: runParallel_def batches_def runParallel_loop_trace)
  show "failed (fst (runParallel executeTask tasks st))
       = failed st + length (filter is_failure (outcomes executeTask tasks))"
    by (simp add: runParallel_def outcomes_def runParallel_loop_stats del: upt.simps)
  show "length tasks = 10 \<longrightarrow> map length (batches tasks) = [4, 4, 2]"
    by (simp add: batches_ten)
qed

lemma length_ten_tasks: "length ten_tasks = 10"
  by (simp add: ten_tasks_def generateTasks_def five_icons_def)

lemma upt_ten: "[0 ..< 10] = [0, 1, 2, 3, 4, 5, 6, 7, 8, 9 :: nat]"
  by (simp add: upt_rec)

lemma sample_failures:
  "length (filter is_failure (outcomes sample_executeTask ten_tasks)) = 2"
  by (simp add: outcomes_def length_ten_tasks upt_ten sample_executeTask_def is_failure_def
      del: upt.simps)

text \<open>The theorem at ten planned tasks, of which the first raises an unexpected fault and
  the second reports a failure: three batches of 4, 4 and 2, and two failures recorded.\<close>

theorem runParallel_batches_witness:
  "length ten_tasks = 10
   \<and> map length (batches ten_tasks) = [4, 4, 2]
   \<and> batches ten_tasks \<noteq> []
   \<and> sample_executeTask 0 (ten_tasks ! 0) = rejected (Error ''unexpected fault'')
   \<and> snd (runParallel sample_executeTask ten_tasks new_stats)
       = concat (map (\<lambda>b. map Dispatched b @ [AllSettled b]) (batches ten_tasks))
   \<and> failed (fst (runParallel sample_executeTask ten_tasks new_stats)) = 2"
proof -
  have "map length (batches ten_tasks) = [4, 4, 2]"
    using runParallel_batches [of ten_tasks sample_executeTask new_stats] length_ten_tasks
    by blast
  moreover from this have "batches ten_tasks \<noteq> []" by auto
  moreover have "failed (fst (runParallel sample_executeTask ten_tasks new_stats)) = 2"
    using runParallel_batches [of ten_tasks sample_executeTask new_stats] sample_failures
    by (simp add: new_stats_def)
  ultimately show ?thesis
    using runParallel_batches [of ten_tasks sample_executeTask new_stats] length_ten_tasks
    by (simp add: sample_executeTask_def)
qed







section \<open>Theorems about the content fetcher\<close>

lemma fetchContent_alone:
  assumes "cache_check (proc_cache p) src useCache = None"
    and "fetchContent isUrl w (proc_cache p) src useCache = (r, cache', evs)"
  shows "step isUrl (step isUrl p (Call src useCache)) (Complete (length (in_flight p)) w)
           = p\<lparr> proc_cache := cache', returned := returned p @ [(src, r)],
                performed := performed p @ evs \<rparr>"
  using assms by (simp add: fetchContent_def)

lemma step_Call_hit:
  "proc_cache p src = Some t \<Longrightarrow>
   step isUrl p (Call src True) = p\<lparr> returned := returned p @ [(src, Inr t)] \<rparr>"
  by (simp add: cache_check_def)

lemma step_cache_dom:
  "proc_cache p src \<noteq> None \<Longrightarrow> proc_cache (step isUrl p a) src \<noteq> None"
  by (cases a)
     (auto simp: cache_check_def fetch_complete_def split: option.splits prod.splits sum.splits)

lemma run_cache_dom:
  "proc_cache p src \<noteq> None \<Longrightarrow> proc_cache (run_actions isUrl p acts) src \<noteq> None"
  unfolding run_actions_def
proof (induction acts arbitrary: p)
  case Nil
  then show ?case by simp
next
  case (Cons a acts)
  from step_cache_dom [OF Cons.prems, of isUrl a] Cons.IH [of "step isUrl p a"]
  show ?case by simp
qed

lemma set_remove_nth: "set (take n xs @ drop (Suc n) xs) \<subseteq> set xs"
  using set_take_subset [of n xs] set_drop_subset [of "Suc n" xs] by auto

lemma step_quiet:
  assumes "proc_cache p src = Some t" and "(src, True) \<notin> set (in_flight p)"
  shows "proc_cache (step isUrl p a) src = Some t \<and> (src, True) \<notin> set (in_flight (step isUrl p a))"
proof (cases a)
  case (Call s uc)
  show ?thesis
  proof (cases "cache_check (proc_cache p) s uc")
    case None
    with assms(1) have "(s, uc) \<noteq> (src, True)" by (auto simp: cache_check_def)
    with assms None Call show ?thesis by simp
  next
    case (Some c)
    with assms Call show ?thesis by simp
  qed
next
  case (Complete n w)
  show ?thesis
  proof (cases "n < length (in_flight p)")
    case True
    obtain s uc where su: "in_flight p ! n = (s, uc)" by (cases "in_flight p ! n")
    obtain r c evs where fc: "fetch_complete isUrl w (proc_cache p) s uc = (r, c, evs)"
      by (cases "fetch_complete isUrl w (proc_cache p) s uc")
    from True su have "(s, uc) \<in> set (in_flight p)" by (metis nth_mem)
    with assms(2) have ne: "(s, uc) \<noteq> (src, True)" by auto
    from fc ne assms(1) have "c src = Some t"
      by (auto simp: fetch_complete_def split: prod.splits sum.splits if_splits)
    moreover have "(src, True) \<notin> set (take n (in_flight p) @ drop (Suc n) (in_flight p))"
      using assms(2) set_remove_nth [of n "in_flight p"] by blast
    ultimately show ?thesis using Complete True su fc by simp
  next
    case False
    with assms Complete show ?thesis by simp
  qed
qed

lemma run_quiet:
  "proc_cache p src = Some t \<Longrightarrow> (src, True) \<notin> set (in_flight p) \<Longrightarrow>
   proc_cache (run_actions isUrl p acts) src = Some t"
  unfolding run_actions_def
proof (induction acts arbitrary: p)
  case Nil
  then show ?case by simp
next
  case (Cons a acts)
  from step_quiet [OF Cons.prems, of isUrl a] Cons.IH [of "step isUrl p a"]
  show ?case by simp
qed

lemma step_Complete_success:
  assumes "n < length (in_flight p)" and "in_flight p ! n = (src, True)"
    and "retrieve isUrl w src = (Inr content, evs)"
  shows "step isUrl p (Complete n w)
           = p\<lparr> proc_cache := (proc_cache p)(src \<mapsto> content),
                in_flight := take n (in_flight p) @ drop (Suc n) (in_flight p),
                returned := returned p @ [(src, Inr content)],
                performed := performed p @ evs \<rparr>"
  using assms by (simp add: fetch_complete_def)

text \<open>
  Claim C6, as the code has it. Take a call of \<open>fetchContent\<close> with \<open>useCache = true\<close> that
  missed the cache, and whose retrieval succeeds: on completion it returns the retrieved
  text. Every call for the same string with \<open>useCache = true\<close> that starts after this
  completion, whatever was called and completed in between and whatever the network and
  the file system have become, is served from the cache: it returns the cache's text at
  once, and leaves the cache, the calls in flight and the input and output performed as
  they are. That text is the text of the completed call, provided no other call for the
  string with \<open>useCache = true\<close> was still in flight when it completed. (A retrieval that
  fails stores nothing, and calls for one string that are in flight together each
  retrieve.)
\<close>

theorem cached_after_success:
  assumes "n < length (in_flight p)" and "in_flight p ! n = (src, True)"
    and "retrieve isUrl w src = (Inr content, evs)"
  shows "returned (step isUrl p (Complete n w)) = returned p @ [(src, Inr content)]
    \<and> proc_cache (run_actions isUrl (step isUrl p (Complete n w)) acts) src \<noteq> None
    \<and> step isUrl (run_actions isUrl (step isUrl p (Complete n w)) acts) (Call src True)
        = (run_actions isUrl (step isUrl p (Complete n w)) acts)
            \<lparr> returned := returned (run_actions isUrl (step isUrl p (Complete n w)) acts)
                 @ [(src, Inr (the (proc_cache
                       (run_actions isUrl (step isUrl p (Complete n w)) acts) src)))] \<rparr>
    \<and> ((src, True) \<notin> set (in_flight (step isUrl p (Complete n w))) \<longrightarrow>
          proc_cache (run_actions isUrl (step isUrl p (Complete n w)) acts) src = Some content)"
proof -
  let ?p1 = "step isUrl p (Complete n w)"
  let ?q = "run_actions isUrl ?p1 acts"
  note eq = step_Complete_success [OF assms]
  have c1: "proc_cache ?p1 src = Some content" unfolding eq by simp
  have a: "returned ?p1 = returned p @ [(src, Inr content)]" unfolding eq by simp
  have b: "proc_cache ?q src \<noteq> None" using c1 by (intro run_cache_dom) simp
  then obtain t where t: "proc_cache ?q src = Some t" by blast
  have c: "step isUrl ?q (Call src True)
        = ?q\<lparr> returned := returned ?q @ [(src, Inr (the (proc_cache ?q src)))] \<rparr>"
    using step_Call_hit [OF t, of isUrl] t by simp
  have d: "(src, True) \<notin> set (in_flight ?p1) \<longrightarrow> proc_cache ?q src = Some content"
    using run_quiet [OF c1] by blast
  from a b c d show ?thesis by blast
qed

text \<open>The theorem at a first call that retrieves from the network, a call for a local
  file that fails in between, and a second call for the URL at a time when the network
  answers 404: the second call returns the text of the first and one request is sent.\<close>

theorem cached_after_success_witness:
  "in_flight (step sample_isUrl new_processor (Call sample_url True)) = [(sample_url, True)]
   \<and> retrieve sample_isUrl world_ok sample_url = (Inr ''<svg/>'', [NetworkFetch sample_url])
   \<and> returned (run_actions sample_isUrl new_processor
        [Call sample_url True, Complete 0 world_ok,
         Call ''key.svg'' True, Complete 0 world_404, Call sample_url True])
     = [(sample_url, Inr ''<svg/>''),
        (''key.svg'', Inl (Error ''Failed to fetch SVG from key.svg: File not found: key.svg'')),
        (sample_url, Inr ''<svg/>'')]
   \<and> performed (run_actions sample_isUrl new_processor
        [Call sample_url True, Complete 0 world_ok,
         Call ''key.svg'' True, Complete 0 world_404, Call sample_url True])
     = [NetworkFetch sample_url, FileAccess ''key.svg'']"
proof -
  have f: "in_flight (step sample_isUrl new_processor (Call sample_url True))
      = [(sample_url, True)]"
    by (simp add: new_processor_def cache_check_def)
  have r: "retrieve sample_isUrl world_ok sample_url = (Inr ''<svg/>'', [NetworkFetch sample_url])"
    by (simp add: retrieve_def world_ok_def sample_isUrl_def sample_url_def)
  have n: "0 < length (in_flight (step sample_isUrl new_processor (Call sample_url True)))"
    and i: "in_flight (step sample_isUrl new_processor (Call sample_url True)) ! 0
              = (sample_url, True)"
    unfolding f by simp_all
  note t = cached_after_success [OF n i r, of "[Call ''key.svg'' True, Complete 0 world_404]"]
  have e: "run_actions sample_isUrl new_processor
        [Call sample_url True, Complete 0 world_ok,
         Call ''key.svg'' True, Complete 0 world_404, Call sample_url True]
      = \<lparr> proc_cache = [sample_url \<mapsto> ''<svg/>''], in_flight = [],
          returned = [(sample_url, Inr ''<svg/>''),
            (''key.svg'', Inl (Error ''Failed to fetch SVG from key.svg: File not found: key.svg'')),
            (sample_url, Inr ''<svg/>'')],
          performed = [NetworkFetch sample_url, FileAccess ''key.svg''] \<rparr>"
    by (simp add: run_actions_def new_processor_def cache_check_def fetch_complete_def
        retrieve_def world_ok_def world_404_def sample_isUrl_def sample_url_def)
  from t f r e show ?thesis by simp
qed

text \<open>
  As worded (at most one retrieval per source string, and the same text on every use) the
  claim fails in three runs. With the network answering 404, two calls for one URL, one
  after the other, send two requests. Two calls for one URL that are in flight
  together, as the calls of the square and the wide task of one source in a batch are,
  both miss the cache and both retrieve. And when the second of two such calls completes
  after the network has changed, it replaces the cached text: the call served from the
  cache before that and the call served after it return different texts.
\<close>

theorem fetchContent_retrieves_again_counterexample:
  "performed (run_actions sample_isUrl new_processor
      [Call sample_url True, Complete 0 world_404, Call sample_url True, Complete 0 world_404])
     = [NetworkFetch sample_url, NetworkFetch sample_url]
   \<and> performed (run_actions sample_isUrl new_processor
      [Call sample_url True, Call sample_url True, Complete 0 world_ok, Complete 0 world_ok])
     = [NetworkFetch sample_url, NetworkFetch sample_url]
   \<and> returned (run_actions sample_isUrl new_processor
      [Call sample_url True, Call sample_url True, Complete 0 world_ok, Call sample_url True,
       Complete 0 world_changed, Call sample_url True])
     = [(sample_url, Inr ''<svg/>''), (sample_url, Inr ''<svg/>''),
        (sample_url, Inr ''<svg><g/></svg>''), (sample_url, Inr ''<svg><g/></svg>'')]"
  by (simp add: run_actions_def new_processor_def cache_check_def fetch_complete_def
      retrieve_def world_ok_def world_404_def world_changed_def sample_isUrl_def sample_url_def)

section \<open>Theorems about configuration validation\<close>

lemma join_contains:
  "x \<in> set xs \<Longrightarrow> \<exists>pre post. join sep xs = pre @ x @ post"
proof (induction sep xs rule: join.induct)
  case (1 sep)
  then show ?case by simp
next
  case (2 sep y)
  then have "join sep [y] = [] @ x @ []" by simp
  then show ?case by blast
next
  case (3 sep y z zs)
  show ?case
  proof (cases "x = y")
    case True
    then have "join sep (y # z # zs) = [] @ x @ (sep @ join sep (z # zs))" by simp
    then show ?thesis by blast
  next
    case False
    with "3.prems" have "x \<in> set (z # zs)" by simp
    from "3.IH" [OF this] obtain pre post where "join sep (z # zs) = pre @ x @ post" by blast
    then have "join sep (y # z # zs) = (y @ sep @ pre) @ x @ post" by simp
    then show ?thesis by blast
  qed
qed

lemma get_prop_Inr: "get_prop v k = Inr x \<Longrightarrow> x = property v k"
  by (simp add: get_prop_def split: if_splits)

lemma get_prop_truthy: "truthy v \<Longrightarrow> get_prop v k = Inr (property v k)"
  by (cases v) (simp_all add: get_prop_def)

lemma validateConfig_Inr:
  assumes "validateConfig coerce config = Inr errs"
  shows "\<exists>es2 es3. validateSources (property config ''sources'') = Inr es2
           \<and> validateSettings coerce (property config ''settings'') = Inr es3
           \<and> errs = validateIcons (property config ''icons'') @ es2 @ es3"
  using assms
  by (auto simp: validateConfig_def split: sum.splits dest!: get_prop_Inr)

lemma min_180_below_200: "h \<noteq> NaN \<Longrightarrow> js_lt (Math_min (Fin 180) h) (Fin 200)"
  by (cases h) (auto simp: Math_min_def)

lemma wide_200_in_180_reported:
  assumes "truthy wide" "property wide ''width'' = Number (Fin 180)"
    "property wide ''iconSize'' = Number (Fin 200)" "property wide ''height'' = Number h"
    "h \<noteq> NaN"
  shows "''settings.wide.iconSize: must be <= min(width, height)''
           \<in> set (validateWideSettings coerce wide)"
  using assms min_180_below_200 [of h]
  by (simp add: validateWideSettings_def)

lemma size_out_of_range_reported:
  assumes "validateBasicSettings coerce settings = Inr es"
    "property settings ''size'' = Number n" "js_lt n (Fin 1) \<or> js_lt (Fin 2048) n"
  shows "''settings.size: must be a number between 1 and 2048'' \<in> set es"
  using assms
  by (auto simp: validateBasicSettings_def split: sum.splits dest!: get_prop_Inr)

lemma validateSettings_object:
  assumes "validateSettings coerce settings = Inr es3" "truthy settings"
    "typeof settings = T_object"
  shows "\<exists>es. validateBasicSettings coerce settings = Inr es
           \<and> es3 = es @ validateWideSettings coerce (property settings ''wide'')"
  using assms by (auto simp: validateSettings_def split: sum.splits)

lemma loadConfig_rejects:
  assumes "validateConfig coerce config = Inr errs" "x \<in> set errs"
  shows "loadConfig coerce config
           = Inl (Error (''Configuration validation failed:'' @ [CHR 0x0A] @ join [CHR 0x0A] errs))"
  using assms by (cases errs) (simp_all add: loadConfig_def)

lemma validateSingleSource_runs:
  "src \<noteq> Undefined \<Longrightarrow> src \<noteq> Null \<Longrightarrow> \<exists>es. validateSingleSource src index = Inr es"
  by (simp add: validateSingleSource_def get_prop_def)

lemma sources_forEach_runs:
  "\<forall>s \<in> set xs. s \<noteq> Undefined \<and> s \<noteq> Null \<Longrightarrow>
   \<exists>es. sources_forEach xs index errors = Inr es"
proof (induction xs arbitrary: index errors)
  case Nil
  then show ?case by simp
next
  case (Cons x xs)
  then obtain es where "validateSingleSource x index = Inr es"
    using validateSingleSource_runs [of x index] by auto
  with Cons show ?case by simp
qed

lemma validateSettings_runs: "\<exists>es. validateSettings coerce settings = Inr es"
  by (cases settings) (simp_all add: validateSettings_def validateBasicSettings_def get_prop_def)

text \<open>The validator runs through, whatever else is wrong with the configuration, when the
  configuration is not null or undefined and no entry of \<open>sources\<close> is; a null entry makes
  it throw a TypeError.\<close>

lemma validateConfig_runs_through:
  assumes "config \<noteq> Undefined" "config \<noteq> Null"
    and "\<forall>s \<in> set (elements (property config ''sources'')). s \<noteq> Undefined \<and> s \<noteq> Null"
  shows "\<exists>errs. validateConfig coerce config = Inr errs"
proof -
  have "\<exists>es2. validateSources (property config ''sources'') = Inr es2"
    using sources_forEach_runs [OF assms(3), of 0 "[]"] by (simp add: validateSources_def)
  then obtain es2 where "validateSources (property config ''sources'') = Inr es2" by blast
  moreover obtain es3 where "validateSettings coerce (property config ''settings'') = Inr es3"
    using validateSettings_runs by blast
  ultimately show ?thesis
    using assms(1,2) by (simp add: validateConfig_def get_prop_def)
qed

text \<open>
  Where the validator runs through, what the configuration is said to do holds: the
  messages of the three sections are collected in one list, icons first, then sources,
  then settings; \<open>loadConfig\<close> accepts the configuration when the list is empty and
  otherwise throws one error whose message lists every message, and \<open>main\<close> then ends
  with that error without building or running the converter. With \<open>settings\<close> an object,
  a \<open>wide\<close> with \<open>width = 180\<close>, \<open>iconSize = 200\<close> and a height that is a number other than
  NaN is rejected with a message naming \<open>settings.wide.iconSize\<close>, and a \<open>size\<close> below 1 or
  above 2048 is rejected with a message naming \<open>settings.size\<close>.
\<close>

lemma validation_aggregate:
  assumes "validateConfig coerce config = Inr errs"
      and "settings = property config ''settings''"
      and "wide = property settings ''wide''"
  shows "(\<exists>es2 es3. validateSources (property config ''sources'') = Inr es2
            \<and> validateSettings coerce settings = Inr es3
            \<and> errs = validateIcons (property config ''icons'') @ es2 @ es3)
    \<and> (errs = [] \<longrightarrow> loadConfig coerce config = Inr config
                       \<and> main coerce convert config = Inr (convert config))
    \<and> (errs \<noteq> [] \<longrightarrow>
          loadConfig coerce config
            = Inl (Error (''Configuration validation failed:'' @ [CHR 0x0A]
                            @ join [CHR 0x0A] errs))
          \<and> main coerce convert config
            = Inl (Error (''Configuration validation failed:'' @ [CHR 0x0A]
                            @ join [CHR 0x0A] errs)))
    \<and> (truthy settings \<and> typeof settings = T_object \<and> truthy wide
          \<and> property wide ''width'' = Number (Fin 180)
          \<and> property wide ''iconSize'' = Number (Fin 200)
          \<and> property wide ''height'' = Number h \<and> h \<noteq> NaN \<longrightarrow>
          ''settings.wide.iconSize: must be <= min(width, height)'' \<in> set errs
          \<and> (\<exists>pre post. main coerce convert config
                = Inl (Error (pre @ ''settings.wide.iconSize'' @ post))))
    \<and> (truthy settings \<and> typeof settings = T_object
          \<and> property settings ''size'' = Number n
          \<and> (js_lt n (Fin 1) \<or> js_lt (Fin 2048) n) \<longrightarrow>
          ''settings.size: must be a number between 1 and 2048'' \<in> set errs
          \<and> (\<exists>pre post. main coerce convert config
                = Inl (Error (pre @ ''settings.size'' @ post))))"
proof -
  from validateConfig_Inr [OF assms(1)] obtain es2 es3 where
    parts: "validateSources (property config ''sources'') = Inr es2"
      "validateSettings coerce settings = Inr es3"
      "errs = validateIcons (property config ''icons'') @ es2 @ es3"
    unfolding assms(2) by blast
  have named: "\<exists>pre post. main coerce convert config = Inl (Error (pre @ key @ post))"
    if "key @ rest \<in> set errs" for key rest
  proof -
    from join_contains [OF that, of "[CHR 0x0A]"] obtain p q where
      "join [CHR 0x0A] errs = p @ (key @ rest) @ q" by blast
    then have "main coerce convert config
        = Inl (Error ((''Configuration validation failed:'' @ [CHR 0x0A] @ p) @ key @ (rest @ q)))"
      using loadConfig_rejects [OF assms(1) that] by (simp add: main_def)
    then show ?thesis by blast
  qed
  have a: "\<exists>es2 es3. validateSources (property config ''sources'') = Inr es2
            \<and> validateSettings coerce settings = Inr es3
            \<and> errs = validateIcons (property config ''icons'') @ es2 @ es3"
    using parts by blast
  have b: "errs = [] \<longrightarrow> loadConfig coerce config = Inr config
                       \<and> main coerce convert config = Inr (convert config)"
    using assms(1) by (simp add: loadConfig_def main_def)
  have c: "errs \<noteq> [] \<longrightarrow>
          loadConfig coerce config
            = Inl (Error (''Configuration validation failed:'' @ [CHR 0x0A]
                            @ join [CHR 0x0A] errs))
          \<and> main coerce convert config
            = Inl (Error (''Configuration validation failed:'' @ [CHR 0x0A]
                            @ join [CHR 0x0A] errs))"
    using assms(1) by (simp add: loadConfig_def main_def)
  have d: "truthy settings \<and> typeof settings = T_object \<and> truthy wide
          \<and> property wide ''width'' = Number (Fin 180)
          \<and> property wide ''iconSize'' = Number (Fin 200)
          \<and> property wide ''height'' = Number h \<and> h \<noteq> NaN \<longrightarrow>
          ''settings.wide.iconSize: must be <= min(width, height)'' \<in> set errs
          \<and> (\<exists>pre post. main coerce convert config
                = Inl (Error (pre @ ''settings.wide.iconSize'' @ post)))"
  proof (intro impI, elim conjE)
    assume h: "truthy settings" "typeof settings = T_object" "truthy wide"
      "property wide ''width'' = Number (Fin 180)"
      "property wide ''iconSize'' = Number (Fin 200)"
      "property wide ''height'' = Number h" "h \<noteq> NaN"
    from validateSettings_object [OF parts(2) h(1) h(2)] obtain es where
      es: "es3 = es @ validateWideSettings coerce wide"
      unfolding assms(3) by blast
    have "''settings.wide.iconSize: must be <= min(width, height)''
            \<in> set (validateWideSettings coerce wide)"
      using h(3-7) by (rule wide_200_in_180_reported)
    then have m: "''settings.wide.iconSize'' @ '': must be <= min(width, height)'' \<in> set errs"
      unfolding parts(3) es by simp
    from named [OF m] m
    show "''settings.wide.iconSize: must be <= min(width, height)'' \<in> set errs
          \<and> (\<exists>pre post. main coerce convert config
                = Inl (Error (pre @ ''settings.wide.iconSize'' @ post)))"
      by simp
  qed
  have e: "truthy settings \<and> typeof settings = T_object
          \<and> property settings ''size'' = Number n
          \<and> (js_lt n (Fin 1) \<or> js_lt (Fin 2048) n) \<longrightarrow>
          ''settings.size: must be a number between 1 and 2048'' \<in> set errs
          \<and> (\<exists>pre post. main coerce convert config
                = Inl (Error (pre @ ''settings.size'' @ post)))"
  proof (intro impI, elim conjE)
    assume h: "truthy settings" "typeof settings = T_object"
      "property settings ''size'' = Number n" "js_lt n (Fin 1) \<or> js_lt (Fin 2048) n"
    from validateSettings_object [OF parts(2) h(1) h(2)] obtain es where
      es: "validateBasicSettings coerce settings = Inr es"
        "es3 = es @ validateWideSettings coerce (property settings ''wide'')"
      by blast
    have "''settings.size: must be a number between 1 and 2048'' \<in> set es"
      using es(1) h(3) h(4) by (rule size_out_of_range_reported)
    then have m: "''settings.size'' @ '': must be a number between 1 and 2048'' \<in> set errs"
      unfolding parts(3) es(2) by simp
    from named [OF m] m
    show "''settings.size: must be a number between 1 and 2048'' \<in> set errs
          \<and> (\<exists>pre post. main coerce convert config
                = Inl (Error (pre @ ''settings.size'' @ post)))"
      by simp
  qed
  from a b c d e show ?thesis by blast
qed

lemma validateConfig_bad_config:
  "validateConfig NaN_coercion bad_config
     = Inr [''settings.size: must be a number between 1 and 2048'',
            ''settings.wide.iconSize: must be <= min(width, height)'']"
  by (simp add: validateConfig_def bad_config_def wide_200_in_180_def get_prop_def
      validateIcons_def validateSources_def validateSingleSource_def validateSettings_def
      validateBasicSettings_def validateWideSettings_def Math_min_def)

text \<open>At a configuration whose size is 4096 and whose wide icon of 200 does not fit the
  width of 180, both messages are in the one error thrown.\<close>

lemma validation_aggregate_bad_config:
  "validateConfig NaN_coercion bad_config
     = Inr [''settings.size: must be a number between 1 and 2048'',
            ''settings.wide.iconSize: must be <= min(width, height)'']
   \<and> property (property (property bad_config ''settings'') ''wide'') ''iconSize''
       = Number (Fin 200)
   \<and> property (property bad_config ''settings'') ''size'' = Number (Fin 4096)
   \<and> main NaN_coercion (\<lambda>c. ()) bad_config
       = Inl (Error (''Configuration validation failed:'' @ [CHR 0x0A]
                @ ''settings.size: must be a number between 1 and 2048'' @ [CHR 0x0A]
                @ ''settings.wide.iconSize: must be <= min(width, height)''))"
  using validation_aggregate [OF validateConfig_bad_config refl refl, of "\<lambda>c. ()" "Fin 320" "Fin 4096"]
    validateConfig_bad_config
  by (simp add: bad_config_def wide_200_in_180_def)

text \<open>
  Claim C7 at two configurations. In the first, \<open>sources\<close> holds a null entry, the size is
  4096 and the wide icon of 200 does not fit the width of 180: the validator reads
  \<open>source.source\<close> of the null entry and throws a TypeError, so no list of messages is
  made, and \<open>loadConfig\<close> and \<open>main\<close> end with that TypeError, which names neither
  \<open>settings.size\<close> nor \<open>settings.wide.iconSize\<close>. In the second the size is NaN: it is of
  type number and neither below 1 nor above 2048 by the language's comparisons, so no
  message is made and the configuration is accepted.
\<close>

theorem validation_throws_on_null_source:
  "validateConfig coerce null_source_config
     = Inl (TypeError (''Cannot read properties of null (reading '' @ [CHR 0x27]
                         @ ''source'' @ [CHR 0x27] @ '')''))
   \<and> main coerce convert null_source_config
     = Inl (TypeError (''Cannot read properties of null (reading '' @ [CHR 0x27]
                         @ ''source'' @ [CHR 0x27] @ '')''))
   \<and> property (property null_source_config ''settings'') ''size'' = Number (Fin 4096)
   \<and> property (property null_source_config ''settings'') ''wide'' = wide_200_in_180
   \<and> validateConfig coerce nan_size_config = Inr []
   \<and> main coerce convert nan_size_config = Inr (convert nan_size_config)"
  by (simp add: validateConfig_def loadConfig_def main_def get_prop_def validateIcons_def
      validateSources_def validateSingleSource_def validateSettings_def
      validateBasicSettings_def validateWideSettings_def null_source_config_def
      nan_size_config_def)

text \<open>
  Claim C10, as the code has it. With \<open>settings.wide\<close> present, the message that the icon
  size must not exceed \<open>min(width, height)\<close> is reported exactly when the icon size,
  converted to a number, is greater than the minimum of the converted width and height.
  So the check never fires when the width or the height converts to NaN, as an absent
  (undefined) field does, whatever the icon size is; and every dimension that is not of
  type number gets its own message. A dimension that is not a number but converts to one
  (null to 0, true to 1) does not disable the check.
\<close>

theorem wide_iconSize_check:
  assumes "truthy wide"
  shows "(''settings.wide.iconSize: must be <= min(width, height)''
            \<in> set (validateWideSettings coerce wide)
          \<longleftrightarrow> js_lt (Math_min (ToNumber coerce (property wide ''width''))
                              (ToNumber coerce (property wide ''height'')))
                    (ToNumber coerce (property wide ''iconSize'')))
    \<and> (ToNumber coerce (property wide ''width'') = NaN
          \<or> ToNumber coerce (property wide ''height'') = NaN \<longrightarrow>
        ''settings.wide.iconSize: must be <= min(width, height)''
          \<notin> set (validateWideSettings coerce wide))
    \<and> (typeof (property wide ''width'') \<noteq> T_number \<longrightarrow>
        ''settings.wide.width: must be a positive number''
          \<in> set (validateWideSettings coerce wide))
    \<and> (typeof (property wide ''height'') \<noteq> T_number \<longrightarrow>
        ''settings.wide.height: must be a positive number''
          \<in> set (validateWideSettings coerce wide))
    \<and> ToNumber coerce Undefined = NaN
    \<and> ToNumber coerce Null = Fin 0
    \<and> ToNumber coerce (Boolean True) = Fin 1"
proof -
  have iff: "''settings.wide.iconSize: must be <= min(width, height)''
            \<in> set (validateWideSettings coerce wide)
          \<longleftrightarrow> js_lt (Math_min (ToNumber coerce (property wide ''width''))
                              (ToNumber coerce (property wide ''height'')))
                    (ToNumber coerce (property wide ''iconSize''))"
    using assms by (simp add: validateWideSettings_def Let_def)
  have nan: "ToNumber coerce (property wide ''width'') = NaN
          \<or> ToNumber coerce (property wide ''height'') = NaN \<longrightarrow>
        ''settings.wide.iconSize: must be <= min(width, height)''
          \<notin> set (validateWideSettings coerce wide)"
    unfolding iff by (auto simp: Math_min_def)
  have w: "typeof (property wide ''width'') \<noteq> T_number \<longrightarrow>
        ''settings.wide.width: must be a positive number''
          \<in> set (validateWideSettings coerce wide)"
    using assms by (simp add: validateWideSettings_def Let_def)
  have h: "typeof (property wide ''height'') \<noteq> T_number \<longrightarrow>
        ''settings.wide.height: must be a positive number''
          \<in> set (validateWideSettings coerce wide)"
    using assms by (simp add: validateWideSettings_def Let_def)
  from iff nan w h show ?thesis by simp
qed

text \<open>The theorem at a \<open>wide\<close> without width, with height 180 and icon size 200: the only
  message is the one about the width.\<close>

theorem wide_iconSize_check_witness:
  "truthy wide_no_width
   \<and> property wide_no_width ''width'' = Undefined
   \<and> validateWideSettings NaN_coercion wide_no_width
       = [''settings.wide.width: must be a positive number'']"
  using wide_iconSize_check [of wide_no_width NaN_coercion]
  by (simp add: wide_no_width_def validateWideSettings_def Math_min_def)

text \<open>
  As worded (the check never fires when the width is not a number) the claim fails on a
  null width: null converts to 0, the minimum is 0, and the icon size of 200 exceeds it.
  Both the width's own message and the message about the minimum are reported.
\<close>

theorem wide_null_width_counterexample:
  "typeof (property wide_null_width ''width'') = T_object
   \<and> validateWideSettings NaN_coercion wide_null_width
       = [''settings.wide.width: must be a positive number'',
          ''settings.wide.iconSize: must be <= min(width, height)'']"
  by (simp add: wide_null_width_def validateWideSettings_def Math_min_def)

section \<open>Theorems about the rasterizer\<close>

text \<open>
  Claim C8. The wide icon is composited at \<open>left = Math.round((width - iconSize) / 2)\<close>
  and \<open>top = Math.round((height - iconSize) / 2)\<close>: the integers nearest to half the
  free width and half the free height, a tie going up. For a canvas of 320 by 180 and
  an icon of 160 they are 80 and 10.
\<close>

theorem center_position_rounds:
  "center_position width height iconSize
     = (Math_round ((width - iconSize) / 2), Math_round ((height - iconSize) / 2))
   \<and> (width - iconSize) / 2 - 1 / 2 < real_of_int (fst (center_position width height iconSize))
   \<and> real_of_int (fst (center_position width height iconSize)) \<le> (width - iconSize) / 2 + 1 / 2
   \<and> (height - iconSize) / 2 - 1 / 2 < real_of_int (snd (center_position width height iconSize))
   \<and> real_of_int (snd (center_position width height iconSize)) \<le> (height - iconSize) / 2 + 1 / 2
   \<and> center_position 320 180 160 = (80, 10)"
proof -
  have r: "x - 1 / 2 < real_of_int (Math_round x) \<and> real_of_int (Math_round x) \<le> x + 1 / 2"
    for x :: real
    unfolding Math_round_def by linarith
  have "center_position 320 180 160 = (80, 10)"
    by (simp add: center_position_def Math_round_def)
  with r [of "(width - iconSize) / 2"] r [of "(height - iconSize) / 2"]
  show ?thesis by (simp add: center_position_def)
qed

end
